theory Spec2Isabelle
  imports Main "HOL-Library.Sublist" "HOL-Library.Code_Target_Nat"
begin

section \<open>Session records and their JSON form\<close>

text \<open>
  The store file of \<^verbatim>\<open>session-store.ts\<close> is a JSON text. The model keeps the value
  that \<^verbatim>\<open>JSON.parse\<close> yields for it: \<^verbatim>\<open>JSON.parse\<close> and
  \<^verbatim>\<open>JSON.stringify\<close> belong to the runtime, and the only fact about them used
  here is that parsing what was stringified gives the value back. Numbers are integers
  (ports, minutes); an object is the list of its own properties.
\<close>

datatype json =
    JNull
  | JBool bool
  | JNum int
  | JStr string
  | JArr "json list"
  | JObj "(string \<times> json) list"

datatype status = StatusActive | StatusStopped | StatusExited

datatype exitType = Intentional | Crash | Unknown

record sessionConfig =
  dockerImage :: "string option"
  defaultShell :: "string option"
  autoCommit :: "bool option"
  autoCommitIntervalMinutes :: "int option"
  restartPolicy :: "string option"

record SessionRecord =
  containerId :: string
  containerName :: string
  sessionId :: string
  repoPath :: string
  branchName :: string
  originalBranch :: string
  shadowRepoPath :: string
  startTime :: string
  lastActivityTime :: string
  status :: status
  exitType :: "exitType option"
  webUIPort :: "int option"
  config :: sessionConfig

fun statusText :: "status \<Rightarrow> string" where
  "statusText StatusActive = ''active''"
| "statusText StatusStopped = ''stopped''"
| "statusText StatusExited = ''exited''"

fun exitTypeText :: "exitType \<Rightarrow> string" where
  "exitTypeText Intentional = ''intentional''"
| "exitTypeText Crash = ''crash''"
| "exitTypeText Unknown = ''unknown''"

text \<open>An optional field that is undefined is left out by \<^verbatim>\<open>JSON.stringify\<close>.\<close>

definition optProp :: "string \<Rightarrow> ('a \<Rightarrow> json) \<Rightarrow> 'a option \<Rightarrow> (string \<times> json) list" where
  "optProp k f v = (case v of None \<Rightarrow> [] | Some x \<Rightarrow> [(k, f x)])"

definition configJson :: "sessionConfig \<Rightarrow> json" where
  "configJson c = JObj
     (optProp ''dockerImage'' JStr (dockerImage c)
      @ optProp ''defaultShell'' JStr (defaultShell c)
      @ optProp ''autoCommit'' JBool (autoCommit c)
      @ optProp ''autoCommitIntervalMinutes'' JNum (autoCommitIntervalMinutes c)
      @ optProp ''restartPolicy'' JStr (restartPolicy c))"

definition toJson :: "SessionRecord \<Rightarrow> json" where
  "toJson r = JObj
     ([(''containerId'', JStr (containerId r)),
       (''containerName'', JStr (containerName r)),
       (''sessionId'', JStr (sessionId r)),
       (''repoPath'', JStr (repoPath r)),
       (''branchName'', JStr (branchName r)),
       (''originalBranch'', JStr (originalBranch r)),
       (''shadowRepoPath'', JStr (shadowRepoPath r)),
       (''startTime'', JStr (startTime r)),
       (''lastActivityTime'', JStr (lastActivityTime r)),
       (''status'', JStr (statusText (status r)))]
      @ optProp ''exitType'' (\<lambda>e. JStr (exitTypeText e)) (exitType r)
      @ optProp ''webUIPort'' JNum (webUIPort r)
      @ [(''config'', configJson (config r))])"

text \<open>
  Reading a JSON value at the declared type \<^verbatim>\<open>SessionRecord\<close>. TypeScript does not
  check the annotation at run time; the model does, and accepts exactly the values that
  \<open>toJson\<close> produces.
\<close>

fun asStr :: "json option \<Rightarrow> string option" where
  "asStr (Some (JStr s)) = Some s"
| "asStr _ = None"

fun optStr :: "json option \<Rightarrow> string option option" where
  "optStr None = Some None"
| "optStr (Some (JStr s)) = Some (Some s)"
| "optStr _ = None"

fun optBool :: "json option \<Rightarrow> bool option option" where
  "optBool None = Some None"
| "optBool (Some (JBool b)) = Some (Some b)"
| "optBool _ = None"

fun optNum :: "json option \<Rightarrow> int option option" where
  "optNum None = Some None"
| "optNum (Some (JNum n)) = Some (Some n)"
| "optNum _ = None"

definition statusOfText :: "string \<Rightarrow> status option" where
  "statusOfText s =
     (if s = ''active'' then Some StatusActive
      else if s = ''stopped'' then Some StatusStopped
      else if s = ''exited'' then Some StatusExited
      else None)"

definition exitTypeOfText :: "string \<Rightarrow> exitType option" where
  "exitTypeOfText s =
     (if s = ''intentional'' then Some Intentional
      else if s = ''crash'' then Some Crash
      else if s = ''unknown'' then Some Unknown
      else None)"

fun optExitType :: "json option \<Rightarrow> exitType option option" where
  "optExitType None = Some None"
| "optExitType (Some (JStr s)) = map_option Some (exitTypeOfText s)"
| "optExitType _ = None"

fun readConfig :: "json option \<Rightarrow> sessionConfig option" where
  "readConfig (Some (JObj kvs)) =
     Option.bind (optStr (map_of kvs ''dockerImage'')) (\<lambda>di.
     Option.bind (optStr (map_of kvs ''defaultShell'')) (\<lambda>ds.
     Option.bind (optBool (map_of kvs ''autoCommit'')) (\<lambda>ac.
     Option.bind (optNum (map_of kvs ''autoCommitIntervalMinutes'')) (\<lambda>ai.
     Option.bind (optStr (map_of kvs ''restartPolicy'')) (\<lambda>rp.
       Some \<lparr>dockerImage = di, defaultShell = ds, autoCommit = ac,
             autoCommitIntervalMinutes = ai, restartPolicy = rp\<rparr>)))))"
| "readConfig _ = None"

fun readRecord :: "json \<Rightarrow> SessionRecord option" where
  "readRecord (JObj kvs) =
     Option.bind (asStr (map_of kvs ''containerId'')) (\<lambda>cid.
     Option.bind (asStr (map_of kvs ''containerName'')) (\<lambda>cn.
     Option.bind (asStr (map_of kvs ''sessionId'')) (\<lambda>sid.
     Option.bind (asStr (map_of kvs ''repoPath'')) (\<lambda>rp.
     Option.bind (asStr (map_of kvs ''branchName'')) (\<lambda>bn.
     Option.bind (asStr (map_of kvs ''originalBranch'')) (\<lambda>ob.
     Option.bind (asStr (map_of kvs ''shadowRepoPath'')) (\<lambda>sp.
     Option.bind (asStr (map_of kvs ''startTime'')) (\<lambda>st.
     Option.bind (asStr (map_of kvs ''lastActivityTime'')) (\<lambda>lt.
     Option.bind (Option.bind (asStr (map_of kvs ''status'')) statusOfText) (\<lambda>sts.
     Option.bind (optExitType (map_of kvs ''exitType'')) (\<lambda>et.
     Option.bind (optNum (map_of kvs ''webUIPort'')) (\<lambda>port.
     Option.bind (readConfig (map_of kvs ''config'')) (\<lambda>cfg.
       Some \<lparr>containerId = cid, containerName = cn, sessionId = sid, repoPath = rp,
             branchName = bn, originalBranch = ob, shadowRepoPath = sp, startTime = st,
             lastActivityTime = lt, status = sts, exitType = et, webUIPort = port,
             config = cfg\<rparr>)))))))))))))"
| "readRecord _ = None"

definition fromJson :: "json \<Rightarrow> SessionRecord option" where
  "fromJson j =
     (case readRecord j of
        None \<Rightarrow> None
      | Some r \<Rightarrow> if toJson r = j then Some r else None)"

fun those_records :: "json list \<Rightarrow> SessionRecord list option" where
  "those_records [] = Some []"
| "those_records (j # js) =
     (case fromJson j of
        None \<Rightarrow> None
      | Some r \<Rightarrow> (case those_records js of None \<Rightarrow> None | Some rs \<Rightarrow> Some (r # rs)))"

section \<open>The world the commands run in\<close>

text \<open>
  The backing file is absent, unreadable (\<^verbatim>\<open>fs.readFile\<close> throws), holds text that
  \<^verbatim>\<open>JSON.parse\<close> rejects, or holds text that parses to a JSON value.
\<close>

datatype file_state = Absent | Unreadable | Malformed | Parsed json

datatype error =
    TypeError
  | IllTyped
  | IOError
  | DockerError
  | WebError
  | GitError
  | GhError
  | UsageError

text \<open>
  A container as the runtime reports it: \<open>cState\<close> is the \<^verbatim>\<open>State\<close> string of
  \<^verbatim>\<open>listContainers\<close>, \<open>cRunning\<close> is \<^verbatim>\<open>State.Running\<close> of \<^verbatim>\<open>inspect()\<close>.
\<close>

record container =
  cId :: string
  cNames :: "string list"
  cState :: string
  cRunning :: bool

text \<open>
  Everything outside the process: the store file, whether mutating filesystem calls
  succeed, the paths that exist, the container runtime, the shell commands run so far
  (working directory and command line, oldest first) and what was printed or asked.
\<close>

record world =
  storeFile :: file_state
  diskWritable :: bool
  homedir :: string
  fsPaths :: "string list"
  dockerUp :: bool
  containers :: "container list"
  shellLog :: "(string \<times> string) list"
  console :: "string list"

datatype outcome = Returned | Pending | Raised error | Exit nat

definition say :: "string \<Rightarrow> world \<Rightarrow> world" where
  "say msg w = w\<lparr>console := console w @ [msg]\<rparr>"

definition ask :: "string \<Rightarrow> world \<Rightarrow> world" where
  "ask msg w = w\<lparr>console := console w @ [''? '' @ msg]\<rparr>"

definition exec :: "string \<Rightarrow> string \<Rightarrow> world \<Rightarrow> world" where
  "exec cwd cmd w = w\<lparr>shellLog := shellLog w @ [(cwd, cmd)]\<rparr>"

subsection \<open>Strings\<close>

fun str_includes :: "string \<Rightarrow> string \<Rightarrow> bool" where
  "str_includes [] sub = (sub = [])"
| "str_includes (c # cs) sub = (prefix sub (c # cs) \<or> str_includes cs sub)"

definition isSpace :: "char \<Rightarrow> bool" where
  "isSpace c = (c = CHR '' '' \<or> c = CHR 0x0A \<or> c = CHR 0x09 \<or> c = CHR 0x0D)"

definition trim :: "string \<Rightarrow> string" where
  "trim s = rev (dropWhile isSpace (rev (dropWhile isSpace s)))"

text \<open>\<^verbatim>\<open>.replace(/[:.]/g, "-")\<close>\<close>

definition replaceColonDot :: "string \<Rightarrow> string" where
  "replaceColonDot s = map (\<lambda>c. if c = CHR '':'' \<or> c = CHR ''.'' then CHR ''-'' else c) s"

fun splitOn :: "char \<Rightarrow> string \<Rightarrow> string list" where
  "splitOn c [] = [[]]"
| "splitOn c (x # xs) =
     (if x = c then [] # splitOn c xs
      else (case splitOn c xs of [] \<Rightarrow> [[x]] | p # ps \<Rightarrow> (x # p) # ps))"

fun joinWith :: "string \<Rightarrow> string list \<Rightarrow> string" where
  "joinWith sep [] = []"
| "joinWith sep [p] = p"
| "joinWith sep (p # q # ps) = p @ sep @ joinWith sep (q # ps)"

subsection \<open>Filesystem (fs-extra)\<close>

definition under :: "string \<Rightarrow> string \<Rightarrow> bool" where
  "under p q = (q = p \<or> prefix (p @ ''/'') q)"

definition pathExists :: "world \<Rightarrow> string \<Rightarrow> bool" where
  "pathExists w p = (p \<in> set (fsPaths w))"

definition removeTree :: "string \<Rightarrow> world \<Rightarrow> error + world" where
  "removeTree p w =
     (if diskWritable w then Inr (w\<lparr>fsPaths := filter (\<lambda>q. \<not> under p q) (fsPaths w)\<rparr>)
      else Inl IOError)"

definition copyTree :: "string \<Rightarrow> string \<Rightarrow> world \<Rightarrow> error + world" where
  "copyTree src dest w =
     (if diskWritable w \<and> pathExists w src
      then Inr (w\<lparr>fsPaths := fsPaths w
                  @ map (\<lambda>q. dest @ drop (length src) q) (filter (under src) (fsPaths w))\<rparr>)
      else Inl IOError)"

definition readdir :: "string \<Rightarrow> world \<Rightarrow> string list" where
  "readdir dir w =
     remdups (map (\<lambda>q. takeWhile (\<lambda>c. c \<noteq> CHR ''/'') (drop (length dir + 1) q))
       (filter (\<lambda>q. prefix (dir @ ''/'') q \<and> q \<noteq> dir @ ''/'') (fsPaths w)))"

text \<open>\<^verbatim>\<open>SHADOW_BASE_PATH\<close> of config.ts.\<close>

definition SHADOW_BASE_PATH :: "world \<Rightarrow> string" where
  "SHADOW_BASE_PATH w = homedir w @ ''/.cache/claude-sandbox/shadows''"

subsection \<open>Container runtime (dockerode)\<close>

definition inspect :: "world \<Rightarrow> string \<Rightarrow> error + container" where
  "inspect w cid =
     (if dockerUp w
      then (case find (\<lambda>c. cId c = cid) (containers w) of
              None \<Rightarrow> Inl DockerError
            | Some c \<Rightarrow> Inr c)
      else Inl DockerError)"

definition listContainers :: "world \<Rightarrow> error + container list" where
  "listContainers w = (if dockerUp w then Inr (containers w) else Inl DockerError)"

definition startContainer :: "string \<Rightarrow> world \<Rightarrow> error + world" where
  "startContainer cid w =
     (case inspect w cid of
        Inl e \<Rightarrow> Inl e
      | Inr c \<Rightarrow> Inr (w\<lparr>containers :=
          map (\<lambda>c. if cId c = cid then c\<lparr>cState := ''running'', cRunning := True\<rparr> else c)
            (containers w)\<rparr>))"

definition stopContainer :: "string \<Rightarrow> world \<Rightarrow> error + world" where
  "stopContainer cid w =
     (case inspect w cid of
        Inl e \<Rightarrow> Inl e
      | Inr c \<Rightarrow> Inr (w\<lparr>containers :=
          map (\<lambda>c. if cId c = cid then c\<lparr>cState := ''exited'', cRunning := False\<rparr> else c)
            (containers w)\<rparr>))"

text \<open>The runtime refuses to remove a running container unless forced; the code never forces.\<close>

definition removeContainer :: "string \<Rightarrow> world \<Rightarrow> error + world" where
  "removeContainer cid w =
     (case inspect w cid of
        Inl e \<Rightarrow> Inl e
      | Inr c \<Rightarrow>
          if cRunning c then Inl DockerError
          else Inr (w\<lparr>containers := filter (\<lambda>c. cId c \<noteq> cid) (containers w)\<rparr>))"

section \<open>The session store (session-store.ts)\<close>

text \<open>JavaScript truthiness of a JSON value, as \<^verbatim>\<open>data.sessions || []\<close> tests it.\<close>

fun truthy :: "json \<Rightarrow> bool" where
  "truthy JNull = False"
| "truthy (JBool b) = b"
| "truthy (JNum n) = (n \<noteq> 0)"
| "truthy (JStr s) = (s \<noteq> [])"
| "truthy (JArr xs) = True"
| "truthy (JObj kvs) = True"

text \<open>
  \<^verbatim>\<open>load()\<close>: the whole body is inside \<^verbatim>\<open>try\<close>, and every exception gives
  \<^verbatim>\<open>[]\<close>. Reading \<^verbatim>\<open>.sessions\<close> of \<^verbatim>\<open>null\<close> throws a TypeError (caught);
  of a number, string, boolean or array it is \<^verbatim>\<open>undefined\<close>. The value returned is
  whatever \<^verbatim>\<open>data.sessions\<close> is when it is truthy: nothing checks that it is an array.
\<close>

definition load_file :: "file_state \<Rightarrow> json" where
  "load_file f =
     (case f of
        Absent \<Rightarrow> JArr []
      | Unreadable \<Rightarrow> JArr []
      | Malformed \<Rightarrow> JArr []
      | Parsed data \<Rightarrow>
          (case data of
             JNull \<Rightarrow> JArr []
           | JObj kvs \<Rightarrow>
               (case map_of kvs ''sessions'' of
                  None \<Rightarrow> JArr []
                | Some v \<Rightarrow> if truthy v then v else JArr [])
           | _ \<Rightarrow> JArr []))"

definition load :: "world \<Rightarrow> json" where
  "load w = load_file (storeFile w)"

text \<open>The content that \<open>save\<close> writes for a list of records: \<^verbatim>\<open>{ sessions }\<close>.\<close>

definition storeData :: "SessionRecord list \<Rightarrow> json" where
  "storeData sessions = JObj [(''sessions'', JArr (map toJson sessions))]"

text \<open>The file holds valid store data: an object whose \<^verbatim>\<open>sessions\<close> is an array of records.\<close>

definition validStore :: "file_state \<Rightarrow> bool" where
  "validStore f =
     (case f of
        Parsed (JObj kvs) \<Rightarrow>
          (case map_of kvs ''sessions'' of
             Some (JArr xs) \<Rightarrow> those_records xs \<noteq> None
           | _ \<Rightarrow> False)
      | _ \<Rightarrow> False)"

text \<open>
  The callers of \<open>load\<close> use its result at the declared type \<^verbatim>\<open>SessionRecord[]\<close>.
  \<^verbatim>\<open>.filter\<close>, \<^verbatim>\<open>.findIndex\<close> and \<^verbatim>\<open>.map\<close> of a value that is not an array
  throw a TypeError; \<^verbatim>\<open>for ... of\<close> throws on a value that is not iterable and walks
  the characters of a string. An array (or string) whose elements are not session
  records is outside the typed program: the model stops there with \<open>IllTyped\<close>.
\<close>

definition asArray :: "json \<Rightarrow> error + SessionRecord list" where
  "asArray v =
     (case v of
        JArr xs \<Rightarrow> (case those_records xs of None \<Rightarrow> Inl IllTyped | Some rs \<Rightarrow> Inr rs)
      | _ \<Rightarrow> Inl TypeError)"

definition asIterable :: "json \<Rightarrow> error + SessionRecord list" where
  "asIterable v =
     (case v of
        JArr xs \<Rightarrow> (case those_records xs of None \<Rightarrow> Inl IllTyped | Some rs \<Rightarrow> Inr rs)
      | JStr s \<Rightarrow> Inl IllTyped
      | _ \<Rightarrow> Inl TypeError)"

text \<open>
  \<^verbatim>\<open>save\<close>: the directory is ensured, the text is written to the temporary path and
  renamed over the store path. The temporary file exists only between the write and the
  rename and is not kept in the state; when the disk refuses the write the exception
  propagates and the store file is as before.
\<close>

definition save :: "SessionRecord list \<Rightarrow> world \<Rightarrow> error + world" where
  "save sessions w =
     (if diskWritable w then Inr (w\<lparr>storeFile := Parsed (storeData sessions)\<rparr>)
      else Inl IOError)"

definition addSession :: "SessionRecord \<Rightarrow> world \<Rightarrow> error + world" where
  "addSession session w =
     (case asArray (load w) of
        Inl e \<Rightarrow> Inl e
      | Inr sessions \<Rightarrow>
          (let filtered = filter (\<lambda>s. containerId s \<noteq> containerId session) sessions
           in save (filtered @ [session]) w))"

fun findIndex :: "('a \<Rightarrow> bool) \<Rightarrow> 'a list \<Rightarrow> nat option" where
  "findIndex P [] = None"
| "findIndex P (x # xs) = (if P x then Some 0 else map_option Suc (findIndex P xs))"

text \<open>
  \<^verbatim>\<open>updates: Partial<SessionRecord>\<close> is given as the function that overrides the
  fields present in it, so \<^verbatim>\<open>{ ...sessions[idx], ...updates }\<close> is its application.
\<close>

definition updateSession ::
  "string \<Rightarrow> (SessionRecord \<Rightarrow> SessionRecord) \<Rightarrow> world \<Rightarrow> error + world" where
  "updateSession cid updates w =
     (case asArray (load w) of
        Inl e \<Rightarrow> Inl e
      | Inr sessions \<Rightarrow>
          (case findIndex (\<lambda>s. containerId s = cid) sessions of
             None \<Rightarrow> Inr w
           | Some idx \<Rightarrow> save (sessions[idx := updates (sessions ! idx)]) w))"

definition removeSession :: "string \<Rightarrow> world \<Rightarrow> error + world" where
  "removeSession cid w =
     (case asArray (load w) of
        Inl e \<Rightarrow> Inl e
      | Inr sessions \<Rightarrow> save (filter (\<lambda>s. containerId s \<noteq> cid) sessions) w)"

definition clearAll :: "world \<Rightarrow> error + world" where
  "clearAll w = save [] w"

datatype containerState = Running | Stopped | Gone

record RecoverableSession = SessionRecord +
  containerState :: containerState
  shadowExists :: bool

definition stateOf :: "world \<Rightarrow> SessionRecord \<Rightarrow> containerState" where
  "stateOf w session =
     (case inspect w (containerId session) of
        Inl e \<Rightarrow> Gone
      | Inr info \<Rightarrow> if cRunning info then Running else Stopped)"

text \<open>The body of the \<^verbatim>\<open>for\<close> loop of \<^verbatim>\<open>getRecoverableSessions\<close>, with \<open>results\<close> threaded.\<close>

fun recoverableLoop ::
  "world \<Rightarrow> SessionRecord list \<Rightarrow> RecoverableSession list \<Rightarrow> RecoverableSession list" where
  "recoverableLoop w [] results = results"
| "recoverableLoop w (session # rest) results =
     (let cs = stateOf w session;
          se = pathExists w (shadowRepoPath session)
      in if cs \<noteq> Gone \<or> se
         then recoverableLoop w rest
                (results @ [SessionRecord.extend session \<lparr>containerState = cs, shadowExists = se\<rparr>])
         else recoverableLoop w rest results)"

definition getRecoverableSessions :: "world \<Rightarrow> error + RecoverableSession list" where
  "getRecoverableSessions w =
     (case asIterable (load w) of
        Inl e \<Rightarrow> Inl e
      | Inr sessions \<Rightarrow> Inr (recoverableLoop w sessions []))"

section \<open>The recovery actions (recover.ts)\<close>

datatype action = Push | Copy | Show | Discard

text \<open>
  What \<open>recoverSession\<close> learns while it runs: the clock, the web server, the
  operator's answers, the remotes configured in the shadow repo (name and URL) and
  whether each git command succeeds there.
\<close>

record recoverEnv =
  now :: string
  webStart :: "string option"
  browserOpens :: bool
  chosenAction :: action
  remotes :: "(string \<times> string) list"
  gitRemoteOk :: bool
  gitAddOk :: bool
  gitCommitOk :: bool
  gitBranch :: "string option"
  gitPushOk :: bool
  resolvedDest :: string
  confirmDiscard :: bool

text \<open>
  The standard output of \<^verbatim>\<open>git remote -v\<close>: for every remote a fetch line and a
  push line, each the name, a tab, and the URL.
\<close>

definition remoteOutput :: "(string \<times> string) list \<Rightarrow> string" where
  "remoteOutput rs =
     concat (map (\<lambda>(name, url).
       name @ [CHR 0x09] @ url @ '' (fetch)'' @ [CHR 0x0A]
       @ name @ [CHR 0x09] @ url @ '' (push)'' @ [CHR 0x0A]) rs)"

text \<open>
  Launching the web UI and marking the record active: the code shared, word for word,
  by the \<^verbatim>\<open>running\<close> and \<^verbatim>\<open>stopped\<close> branches. It ends in
  \<^verbatim>\<open>await new Promise(() => {})\<close>, which never settles.
\<close>

definition reattach :: "recoverEnv \<Rightarrow> RecoverableSession \<Rightarrow> world \<Rightarrow> outcome \<times> world" where
  "reattach env session w =
     (case webStart env of
        None \<Rightarrow> (Raised WebError, w)
      | Some url \<Rightarrow>
          (let w1 = say (''Web UI available at: '' @ url @ ''?container='' @ containerId session) w
           in if \<not> browserOpens env then (Raised WebError, w1)
              else (case updateSession (containerId session)
                           (\<lambda>s. s\<lparr>status := StatusActive, lastActivityTime := now env\<rparr>) w1 of
                      Inl e \<Rightarrow> (Raised e, w1)
                    | Inr w2 \<Rightarrow>
                        (Pending, say ''Keep this terminal open to maintain the session'' w2))))"

text \<open>
  The push action. Every command is run in the shadow repo and recorded in the shell
  log (the quotes of the commit command line are dropped there). The inner
  \<^verbatim>\<open>try\<close> swallows a failing commit, so \<open>gitCommitOk\<close> is never read; every other
  failure, also that of \<open>removeSession\<close>, lands in the \<^verbatim>\<open>catch\<close> block, which is
  \<open>pushFailed\<close>.
\<close>

definition pushFailed :: "RecoverableSession \<Rightarrow> world \<Rightarrow> world" where
  "pushFailed session w =
     say (''Shadow repo preserved at: '' @ shadowRepoPath session) (say ''Push failed:'' w)"

definition pushAction :: "recoverEnv \<Rightarrow> RecoverableSession \<Rightarrow> world \<Rightarrow> world" where
  "pushAction env session w =
     (let cwd = shadowRepoPath session;
          w1 = exec cwd ''git remote -v'' w
      in if \<not> gitRemoteOk env then pushFailed session w1
         else if \<not> str_includes (remoteOutput (remotes env)) ''origin''
         then say (''Shadow repo path: '' @ cwd)
                (say ''No remote origin configured in shadow repo.'' w1)
         else
           (let w2 = exec cwd ''git add -A'' w1
            in if \<not> gitAddOk env then pushFailed session w2
               else
                 (let w3 = exec cwd (''git commit -m [recovery] Recovered changes from ''
                                      @ replaceColonDot (now env)) w2;
                      w4 = exec cwd ''git branch --show-current'' w3
                  in case gitBranch env of
                       None \<Rightarrow> pushFailed session w4
                     | Some branchOutput \<Rightarrow>
                         (let branch = trim branchOutput;
                              w5 = exec cwd (''git push -u origin '' @ branch) w4
                          in if \<not> gitPushOk env then pushFailed session w5
                             else
                               (let w6 = say (''Pushed branch '' @ branch @ '' to remote.'') w5
                                in case removeSession (containerId session) w6 of
                                     Inl e \<Rightarrow> pushFailed session w6
                                   | Inr w7 \<Rightarrow> w7)))))"

definition copyAction :: "recoverEnv \<Rightarrow> RecoverableSession \<Rightarrow> world \<Rightarrow> outcome \<times> world" where
  "copyAction env session w =
     (let w1 = ask ''Enter destination path:'' w
      in case copyTree (shadowRepoPath session) (resolvedDest env) w1 of
           Inl e \<Rightarrow> (Raised e, w1)
         | Inr w2 \<Rightarrow>
             (let w3 = say (''Copied to: '' @ resolvedDest env) w2
              in case removeSession (containerId session) w3 of
                   Inl e \<Rightarrow> (Raised e, w3)
                 | Inr w4 \<Rightarrow> (Returned, w4)))"

definition showAction :: "RecoverableSession \<Rightarrow> world \<Rightarrow> world" where
  "showAction session w =
     say ''Session record preserved.'' (say (''Shadow repo path: '' @ shadowRepoPath session) w)"

definition discardAction :: "recoverEnv \<Rightarrow> RecoverableSession \<Rightarrow> world \<Rightarrow> outcome \<times> world" where
  "discardAction env session w =
     (let w1 = ask ''Are you sure? This will delete the shadow repo permanently.'' w
      in if confirmDiscard env
         then (case removeTree (shadowRepoPath session) w1 of
                 Inl e \<Rightarrow> (Raised e, w1)
               | Inr w2 \<Rightarrow>
                   (case removeSession (containerId session) w2 of
                      Inl e \<Rightarrow> (Raised e, w2)
                    | Inr w3 \<Rightarrow> (Returned, say ''Shadow repo and session record removed.'' w3)))
         else (Returned, say ''Discard cancelled.'' w1))"

text \<open>The two lines printed for a gone container with a shadow repo, and the menu.\<close>

definition offerActions :: "RecoverableSession \<Rightarrow> world \<Rightarrow> world" where
  "offerActions session w =
     ask ''What would you like to do with the shadow repo?''
       (say (''  '' @ shadowRepoPath session)
         (say (''Container '' @ sessionId session @ '' is gone, but shadow repo exists at:'') w))"

definition recoverSession :: "recoverEnv \<Rightarrow> RecoverableSession \<Rightarrow> world \<Rightarrow> outcome \<times> world" where
  "recoverSession env session w =
     (if containerState session = Running
      then reattach env session
             (say (''Container '' @ sessionId session @ '' is running. Launching Web UI...'') w)
      else if containerState session = Stopped
      then (let w1 = say (''Restarting container '' @ sessionId session @ ''...'') w
            in case startContainer (containerId session) w1 of
                 Inl e \<Rightarrow> (Raised e, w1)
               | Inr w2 \<Rightarrow>
                   reattach env session
                     (say (''Container '' @ sessionId session
                           @ '' restarted. Launching Web UI...'') w2))
      else if shadowExists session
      then (let w1 = offerActions session w
            in case chosenAction env of
                 Push \<Rightarrow> (Returned, pushAction env session w1)
               | Copy \<Rightarrow> copyAction env session w1
               | Show \<Rightarrow> (Returned, showAction session w1)
               | Discard \<Rightarrow> discardAction env session w1)
      else (let w1 = say (''Session '' @ sessionId session
                          @ '' is unrecoverable (container and shadow repo both gone).'') w
            in case removeSession (containerId session) w1 of
                 Inl e \<Rightarrow> (Raised e, w1)
               | Inr w2 \<Rightarrow> (Returned, say ''Session record cleaned up.'' w2)))"

section \<open>The recover and clean commands (cli.ts)\<close>

text \<open>
  \<^verbatim>\<open>recover\<close>: the sessions offered are those of \<open>getRecoverableSessions\<close>; the
  operator picks one by container id and \<open>recoverSession\<close> runs on the first session
  with that id. Every exception ends in \<^verbatim>\<open>process.exit(1)\<close>; calling
  \<open>recoverSession\<close> with the \<^verbatim>\<open>undefined\<close> of a failed \<^verbatim>\<open>find\<close> is one.
\<close>

definition recoverCommand ::
  "bool \<Rightarrow> string \<Rightarrow> recoverEnv \<Rightarrow> world \<Rightarrow> outcome \<times> world" where
  "recoverCommand listOnly selectedId env w =
     (case getRecoverableSessions w of
        Inl e \<Rightarrow> (Exit 1, say ''Failed:'' w)
      | Inr sessions \<Rightarrow>
          if sessions = [] then (Returned, say ''No recoverable sessions found.'' w)
          else
            (let w1 = say ''Found recoverable session(s):'' w;
                 w2 = foldl (\<lambda>w s. say (''  '' @ sessionId s @ '' | '' @ branchName s) w) w1 sessions
             in if listOnly then (Returned, w2)
                else
                  (let w3 = ask ''Select a session to recover:'' w2
                   in case find (\<lambda>s. containerId s = selectedId) sessions of
                        None \<Rightarrow> (Exit 1, say ''Failed:'' w3)
                      | Some session \<Rightarrow>
                          (case recoverSession env session w3 of
                             (Raised e, w4) \<Rightarrow> (Exit 1, say ''Failed:'' w4)
                           | r \<Rightarrow> r))))"

record cleanOptions =
  force :: bool
  shadows :: bool

definition getClaudeSandboxContainers :: "world \<Rightarrow> error + container list" where
  "getClaudeSandboxContainers w =
     (case listContainers w of
        Inl e \<Rightarrow> Inl e
      | Inr cs \<Rightarrow>
          Inr (filter (\<lambda>c. list_ex (\<lambda>name. str_includes name ''claude-code-sandbox'') (cNames c)) cs))"

text \<open>
  The loops of the clean action return the error, if any, together with the world as it
  is when the exception leaves the loop: what was removed before stays removed.
\<close>

fun removeTargets :: "bool \<Rightarrow> container list \<Rightarrow> world \<Rightarrow> error option \<times> world" where
  "removeTargets frc [] w = (None, w)"
| "removeTargets frc (c # cs) w =
     (case (if cState c = ''running'' \<and> frc then stopContainer (cId c) w else Inr w) of
        Inl e \<Rightarrow> (Some e, w)
      | Inr w1 \<Rightarrow>
          (case removeContainer (cId c) w1 of
             Inl e \<Rightarrow> (Some e, w1)
           | Inr w2 \<Rightarrow> removeTargets frc cs w2))"

text \<open>Clean session records for containers that no longer exist.\<close>

fun cleanRecords :: "SessionRecord list \<Rightarrow> world \<Rightarrow> error option \<times> world" where
  "cleanRecords [] w = (None, w)"
| "cleanRecords (session # rest) w =
     (case inspect w (containerId session) of
        Inr info \<Rightarrow> cleanRecords rest w
      | Inl e \<Rightarrow>
          (case removeSession (containerId session) w of
             Inl e' \<Rightarrow> (Some e', w)
           | Inr w1 \<Rightarrow> cleanRecords rest w1))"

fun removeOrphans ::
  "string \<Rightarrow> string list \<Rightarrow> string list \<Rightarrow> world \<Rightarrow> error option \<times> world" where
  "removeOrphans base activeSessionIds [] w = (None, w)"
| "removeOrphans base activeSessionIds (entry # entries) w =
     (if entry \<notin> set activeSessionIds
      then (case removeTree (base @ ''/'' @ entry) w of
              Inl e \<Rightarrow> (Some e, w)
            | Inr w1 \<Rightarrow> removeOrphans base activeSessionIds entries w1)
      else removeOrphans base activeSessionIds entries w)"

definition cleanShadows :: "cleanOptions \<Rightarrow> world \<Rightarrow> error option \<times> world" where
  "cleanShadows options w =
     (if shadows options \<and> pathExists w (SHADOW_BASE_PATH w)
      then (let entries = readdir (SHADOW_BASE_PATH w) w
            in case asArray (load w) of
                 Inl e \<Rightarrow> (Some e, w)
               | Inr activeSessions \<Rightarrow>
                   removeOrphans (SHADOW_BASE_PATH w) (map sessionId activeSessions) entries w)
      else (None, w))"

text \<open>
  The body of the \<^verbatim>\<open>try\<close> of the clean action. The three tallies only feed the
  closing message and are left out.
\<close>

definition cleanBody :: "cleanOptions \<Rightarrow> world \<Rightarrow> error option \<times> world" where
  "cleanBody options w =
     (case getClaudeSandboxContainers w of
        Inl e \<Rightarrow> (Some e, w)
      | Inr cs \<Rightarrow>
          (let targetContainers = (if force options then cs
                                   else filter (\<lambda>c. cState c \<noteq> ''running'') cs)
           in case removeTargets (force options) targetContainers w of
                (Some e, w1) \<Rightarrow> (Some e, w1)
              | (None, w1) \<Rightarrow>
                  (case asIterable (load w1) of
                     Inl e \<Rightarrow> (Some e, w1)
                   | Inr sessions \<Rightarrow>
                       (case cleanRecords sessions w1 of
                          (Some e, w2) \<Rightarrow> (Some e, w2)
                        | (None, w2) \<Rightarrow> cleanShadows options w2))))"

definition clean :: "cleanOptions \<Rightarrow> world \<Rightarrow> outcome \<times> world" where
  "clean options w =
     (case cleanBody options w of
        (Some e, w1) \<Rightarrow> (Exit 1, say ''Failed:'' w1)
      | (None, w1) \<Rightarrow> (Returned, say ''Cleaned up'' w1))"

section \<open>Branch resolution and the commit reaction (index.ts)\<close>

text \<open>
  \<^verbatim>\<open>SandboxConfig\<close> is declared in types.ts, which is not among the sources; the
  three options read by the branch resolution are taken as optional values, the pull
  request number as a number or a string (the command line gives a string).
\<close>

datatype pr_number = PrNum nat | PrStr string

record SandboxConfig =
  prNumber :: "pr_number option"
  remoteBranch :: "string option"
  targetBranch :: "string option"

text \<open>
  What the resolution reads from outside: the \<^verbatim>\<open>headRefName\<close> that
  \<^verbatim>\<open>gh pr view\<close> reports (\<open>None\<close> when the command or the parse fails),
  \<^verbatim>\<open>new Date().toISOString()\<close> and \<^verbatim>\<open>Date.now()\<close>.
\<close>

record runEnv =
  ghHeadRefName :: "string option"
  isoNow :: string
  dateNow :: nat

record branchPlan =
  planBranchName :: string
  prFetchRef :: string
  remoteFetchRef :: string

definition digitChar :: "nat \<Rightarrow> char" where
  "digitChar n = ''0123456789'' ! n"

fun showNat :: "nat \<Rightarrow> string" where
  "showNat n = (if n < 10 then [digitChar n] else showNat (n div 10) @ [digitChar (n mod 10)])"

declare showNat.simps [simp del]

fun prText :: "pr_number \<Rightarrow> string" where
  "prText (PrNum n) = showNat n"
| "prText (PrStr s) = s"

fun prTruthy :: "pr_number option \<Rightarrow> bool" where
  "prTruthy None = False"
| "prTruthy (Some (PrNum n)) = (n \<noteq> 0)"
| "prTruthy (Some (PrStr s)) = (s \<noteq> [])"

fun strTruthy :: "string option \<Rightarrow> bool" where
  "strTruthy None = False"
| "strTruthy (Some s) = (s \<noteq> [])"

text \<open>The name synthesized when no target branch is configured.\<close>

definition generatedBranch :: "runEnv \<Rightarrow> string" where
  "generatedBranch env =
     (let timestamp = (case splitOn CHR ''T'' (replaceColonDot (isoNow env)) of
                         [] \<Rightarrow> []
                       | p # ps \<Rightarrow> p)
      in ''claude/'' @ timestamp @ ''-'' @ showNat (dateNow env))"

text \<open>
  The branch resolution of \<^verbatim>\<open>run()\<close>, from the three \<^verbatim>\<open>let\<close>s to the call of
  \<^verbatim>\<open>prepareContainer\<close>; the result is what is handed to it. Both \<^verbatim>\<open>catch\<close> blocks
  log and rethrow.
\<close>

definition resolveBranch :: "SandboxConfig \<Rightarrow> runEnv \<Rightarrow> error + branchPlan" where
  "resolveBranch cfg env =
     (if prTruthy (prNumber cfg)
      then (case (prNumber cfg, ghHeadRefName env) of
              (Some n, Some headRefName) \<Rightarrow>
                Inr \<lparr>planBranchName = headRefName,
                     prFetchRef = ''pull/'' @ prText n @ ''/head:'' @ headRefName,
                     remoteFetchRef = []\<rparr>
            | _ \<Rightarrow> Inl GhError)
      else if strTruthy (remoteBranch cfg)
      then (case remoteBranch cfg of
              None \<Rightarrow> Inl UsageError
            | Some spec \<Rightarrow>
                (case splitOn CHR ''/'' spec of
                   remote # b # bs \<Rightarrow>
                     (let branch = joinWith ''/'' (b # bs)
                      in Inr \<lparr>planBranchName = branch, prFetchRef = [],
                              remoteFetchRef = remote @ ''/'' @ branch\<rparr>)
                 | _ \<Rightarrow> Inl UsageError))
      else Inr \<lparr>planBranchName =
                  (case targetBranch cfg of
                     None \<Rightarrow> generatedBranch env
                   | Some t \<Rightarrow> if t \<noteq> [] then t else generatedBranch env),
                prFetchRef = [], remoteFetchRef = []\<rparr>)"

datatype commitAction = ActNothing | ActPush | ActPushPr | ActExit

text \<open>What the sandbox does to the outside, in the order it does it.\<close>

datatype effect =
    GitDiff
  | GitBranchLocal
  | GitPush string string
  | GhPrCreate
  | MonitorStop
  | ContainerCleanup
  | WebServerStop

record sandbox =
  effects :: "effect list"
  printed :: "string list"
  webServer :: bool

record commitEnv =
  diffOk :: bool
  askedAction :: commitAction
  localBranch :: "string option"
  pushOk :: bool
  prCreateOk :: bool
  monitorStopOk :: bool
  containerCleanupOk :: bool
  webServerStopOk :: bool

definition does :: "effect \<Rightarrow> sandbox \<Rightarrow> sandbox" where
  "does e s = s\<lparr>effects := effects s @ [e]\<rparr>"

definition prints :: "string \<Rightarrow> sandbox \<Rightarrow> sandbox" where
  "prints msg s = s\<lparr>printed := printed s @ [msg]\<rparr>"

definition pushBranch :: "commitEnv \<Rightarrow> sandbox \<Rightarrow> error option \<times> sandbox" where
  "pushBranch env s =
     (let s1 = does GitBranchLocal s
      in case localBranch env of
           None \<Rightarrow> (Some GitError, s1)
         | Some current \<Rightarrow>
             (let s2 = does (GitPush ''origin'' current) s1
              in if pushOk env then (None, prints (''Pushed branch: '' @ current) s2)
                 else (Some GitError, s2)))"

definition pushBranchAndCreatePR :: "commitEnv \<Rightarrow> sandbox \<Rightarrow> error option \<times> sandbox" where
  "pushBranchAndCreatePR env s =
     (case pushBranch env s of
        (Some e, s1) \<Rightarrow> (Some e, s1)
      | (None, s1) \<Rightarrow>
          (let s2 = does GhPrCreate s1
           in if prCreateOk env then (None, prints ''Created pull request'' s2)
              else (None, prints
                ''Could not create PR automatically. Please create it manually.'' s2)))"

definition cleanup :: "commitEnv \<Rightarrow> sandbox \<Rightarrow> error option \<times> sandbox" where
  "cleanup env s =
     (let s1 = does MonitorStop s
      in if \<not> monitorStopOk env then (Some GitError, s1)
         else (let s2 = does ContainerCleanup s1
               in if \<not> containerCleanupOk env then (Some DockerError, s2)
                  else if webServer s2
                  then (let s3 = does WebServerStop s2
                        in if webServerStopOk env then (None, s3) else (Some WebError, s3))
                  else (None, s2)))"

definition handleCommit :: "commitEnv \<Rightarrow> sandbox \<Rightarrow> outcome \<times> sandbox" where
  "handleCommit env s =
     (let s1 = does GitDiff (prints ''New commit'' s)
      in if \<not> diffOk env then (Raised GitError, s1)
         else
           (let s2 = prints ''? What would you like to do?'' (prints ''diff'' s1)
            in case askedAction env of
                 ActNothing \<Rightarrow> (Returned, prints ''Continuing...'' s2)
               | ActPush \<Rightarrow>
                   (case pushBranch env s2 of
                      (Some e, s3) \<Rightarrow> (Raised e, s3)
                    | (None, s3) \<Rightarrow> (Returned, s3))
               | ActPushPr \<Rightarrow>
                   (case pushBranchAndCreatePR env s2 of
                      (Some e, s3) \<Rightarrow> (Raised e, s3)
                    | (None, s3) \<Rightarrow> (Returned, s3))
               | ActExit \<Rightarrow>
                   (case cleanup env s2 of
                      (Some e, s3) \<Rightarrow> (Raised e, s3)
                    | (None, s3) \<Rightarrow> (Exit 0, s3))))"

section \<open>Derived notions used in the statements\<close>

text \<open>The caller's sequence of \<open>addSession\<close> calls, one per record, in order.\<close>

fun addAll :: "SessionRecord list \<Rightarrow> world \<Rightarrow> error + world" where
  "addAll [] w = Inr w"
| "addAll (r # rs) w = (case addSession r w of Inl e \<Rightarrow> Inl e | Inr w1 \<Rightarrow> addAll rs w1)"

text \<open>
  The object \<^verbatim>\<open>{ ...session, containerState, shadowExists }\<close> that the loop of
  \<open>getRecoverableSessions\<close> pushes for a session.
\<close>

definition enrich :: "world \<Rightarrow> SessionRecord \<Rightarrow> RecoverableSession" where
  "enrich w session = SessionRecord.extend session
     \<lparr>containerState = stateOf w session,
      shadowExists = pathExists w (shadowRepoPath session)\<rparr>"

text \<open>A record, a second one with the same container id, and a quiet machine, for the examples.\<close>

definition exampleSession :: SessionRecord where
  "exampleSession =
     \<lparr>containerId = ''c0ffee0123456789'', containerName = ''claude-code-sandbox-1'',
      sessionId = ''c0ffee012345'', repoPath = ''/home/op/app'',
      branchName = ''claude/2026-01-01-1'', originalBranch = ''main'',
      shadowRepoPath = ''/home/op/.cache/claude-sandbox/shadows/c0ffee012345'',
      startTime = ''2026-01-01T00:00:00.000Z'', lastActivityTime = ''2026-01-01T00:05:00.000Z'',
      status = StatusActive, exitType = None, webUIPort = None,
      config = \<lparr>dockerImage = Some ''claude-code-sandbox:latest'', defaultShell = None,
                autoCommit = Some True, autoCommitIntervalMinutes = Some 5,
                restartPolicy = None\<rparr>\<rparr>"

definition exampleSession2 :: SessionRecord where
  "exampleSession2 = exampleSession\<lparr>branchName := ''feature/x'', status := StatusStopped,
                                     exitType := Some Crash\<rparr>"

definition idleWorld :: world where
  "idleWorld =
     \<lparr>storeFile = Absent, diskWritable = True, homedir = ''/home/op'', fsPaths = [],
      dockerUp = True, containers = [], shellLog = [], console = []\<rparr>"

text \<open>The container of a record is still known to the runtime: \<^verbatim>\<open>inspect()\<close> succeeds.\<close>

definition containerExists :: "world \<Rightarrow> string \<Rightarrow> bool" where
  "containerExists w cid = (case inspect w cid of Inl e \<Rightarrow> False | Inr c \<Rightarrow> True)"

text \<open>The store, read at its declared type, holds the record \<open>r\<close>.\<close>

definition storeHolds :: "world \<Rightarrow> SessionRecord \<Rightarrow> bool" where
  "storeHolds w r =
     (case asArray (load w) of Inl e \<Rightarrow> False | Inr stored \<Rightarrow> r \<in> set stored)"

text \<open>
  Further examples: the example record as a gone session with a shadow repo; a machine
  whose store holds the record and whose shadow directory exists; a machine whose store
  holds the record and nothing else is left; an operator who picks push in a shadow repo
  whose only remote is called upstream; an operator who picks discard.
\<close>

definition goneShadowSession :: RecoverableSession where
  "goneShadowSession =
     SessionRecord.extend exampleSession \<lparr>containerState = Gone, shadowExists = True\<rparr>"

definition shadowWorld :: world where
  "shadowWorld =
     idleWorld\<lparr>storeFile := Parsed (storeData [exampleSession]),
               fsPaths := [''/home/op/.cache/claude-sandbox/shadows'',
                           shadowRepoPath exampleSession,
                           shadowRepoPath exampleSession @ ''/README.md'']\<rparr>"

definition danglingWorld :: world where
  "danglingWorld = idleWorld\<lparr>storeFile := Parsed (storeData [exampleSession])\<rparr>"

definition strayEnv :: recoverEnv where
  "strayEnv =
     \<lparr>now = ''2026-01-02T03:04:05.678Z'', webStart = None, browserOpens = False,
      chosenAction = Push,
      remotes = [(''upstream'', ''https://git.example.com/origin-labs/app.git'')],
      gitRemoteOk = True, gitAddOk = True, gitCommitOk = True,
      gitBranch = Some (''main'' @ [CHR 0x0A]), gitPushOk = False,
      resolvedDest = ''/tmp/recovered'', confirmDiscard = False\<rparr>"

definition discardEnv :: "bool \<Rightarrow> recoverEnv" where
  "discardEnv confirm = strayEnv\<lparr>chosenAction := Discard, confirmDiscard := confirm\<rparr>"

definition exampleRunEnv :: runEnv where
  "exampleRunEnv =
     \<lparr>ghHeadRefName = Some ''fix-login'', isoNow = ''2026-01-02T03:04:05.678Z'',
      dateNow = 1767323045678\<rparr>"

definition prFailsEnv :: commitEnv where
  "prFailsEnv =
     \<lparr>diffOk = True, askedAction = ActPushPr, localBranch = Some ''claude/work'',
      pushOk = True, prCreateOk = False, monitorStopOk = True, containerCleanupOk = True,
      webServerStopOk = True\<rparr>"

section \<open>Properties of the store\<close>

lemma readConfig_configJson: "readConfig (Some (configJson c)) = Some c"
  by (cases c) (simp add: configJson_def optProp_def split: option.split)

lemma statusOfText_statusText: "statusOfText (statusText s) = Some s"
  by (cases s) (simp_all add: statusOfText_def)

lemma exitTypeOfText_exitTypeText: "exitTypeOfText (exitTypeText e) = Some e"
  by (cases e) (simp_all add: exitTypeOfText_def)

lemma readRecord_toJson: "readRecord (toJson r) = Some r"
  by (cases r)
     (simp add: toJson_def optProp_def statusOfText_statusText exitTypeOfText_exitTypeText
        readConfig_configJson split: option.split)

lemma fromJson_toJson: "fromJson (toJson r) = Some r"
  by (simp add: fromJson_def readRecord_toJson)

lemma fromJson_Some: "fromJson j = Some r \<Longrightarrow> j = toJson r"
  by (auto simp: fromJson_def split: option.splits if_splits)

lemma those_records_map: "those_records (map toJson rs) = Some rs"
  by (induction rs) (simp_all add: fromJson_toJson)

lemma those_records_Some: "those_records js = Some rs \<Longrightarrow> js = map toJson rs"
  by (induction js arbitrary: rs) (auto split: option.splits dest: fromJson_Some)

lemma load_file_storeData: "load_file (Parsed (storeData rs)) = JArr (map toJson rs)"
  by (simp add: load_file_def storeData_def)

lemma load_stored: "load (w\<lparr>storeFile := Parsed (storeData rs)\<rparr>) = JArr (map toJson rs)"
  by (simp add: load_def load_file_storeData)

lemma asArray_records: "asArray (JArr (map toJson rs)) = Inr rs"
  by (simp add: asArray_def those_records_map)

lemma asIterable_records: "asIterable (JArr (map toJson rs)) = Inr rs"
  by (simp add: asIterable_def those_records_map)

lemma asArray_Inr: "asArray v = Inr rs \<Longrightarrow> v = JArr (map toJson rs)"
  by (auto simp: asArray_def split: json.splits option.splits dest: those_records_Some)

lemma asIterable_Inr: "asIterable v = Inr rs \<Longrightarrow> v = JArr (map toJson rs)"
  by (auto simp: asIterable_def split: json.splits option.splits dest: those_records_Some)

lemma save_writable:
  "diskWritable w \<Longrightarrow> save rs w = Inr (w\<lparr>storeFile := Parsed (storeData rs)\<rparr>)"
  by (simp add: save_def)

lemma save_Inr: "save rs w = Inr w' \<Longrightarrow> w' = w\<lparr>storeFile := Parsed (storeData rs)\<rparr>"
  by (auto simp: save_def split: if_splits)

lemma addSession_writable:
  assumes "asArray (load w) = Inr sessions" and "diskWritable w"
  shows "addSession session w =
           Inr (w\<lparr>storeFile := Parsed (storeData
                  (filter (\<lambda>s. containerId s \<noteq> containerId session) sessions @ [session]))\<rparr>)"
  using assms by (simp add: addSession_def save_writable)

lemma removeSession_writable:
  assumes "asArray (load w) = Inr sessions" and "diskWritable w"
  shows "removeSession cid w =
           Inr (w\<lparr>storeFile := Parsed (storeData (filter (\<lambda>s. containerId s \<noteq> cid) sessions))\<rparr>)"
  using assms by (simp add: removeSession_def save_writable)

lemma load_idleWorld: "asArray (load idleWorld) = Inr []"
  by (simp add: idleWorld_def load_def load_file_def asArray_def)

subsection \<open>Loading\<close>

text \<open>
  Where \<^verbatim>\<open>load()\<close> does fail open: it never raises (it is a total function into
  values, with no error result), and it returns the empty list when the file is absent,
  unreadable, not parseable, or parses to a value that has no truthy \<^verbatim>\<open>sessions\<close>
  property; when the file holds the store data of a list of records it returns that
  list, in order.
\<close>

lemma load_fail_open_cases:
  "load (w\<lparr>storeFile := Absent\<rparr>) = JArr []
   \<and> load (w\<lparr>storeFile := Unreadable\<rparr>) = JArr []
   \<and> load (w\<lparr>storeFile := Malformed\<rparr>) = JArr []
   \<and> ((\<forall>kvs v. data = JObj kvs \<and> map_of kvs ''sessions'' = Some v \<longrightarrow> \<not> truthy v)
        \<longrightarrow> load (w\<lparr>storeFile := Parsed data\<rparr>) = JArr [])
   \<and> load (w\<lparr>storeFile := Parsed (storeData rs)\<rparr>) = JArr (map toJson rs)
   \<and> asArray (load (w\<lparr>storeFile := Parsed (storeData rs)\<rparr>)) = Inr rs"
  by (auto simp: load_def load_file_def storeData_def asArray_def those_records_map
           split: json.splits option.splits)

text \<open>
  C5 fails on the code. A file whose text is valid JSON but not valid store data is
  malformed content, and the fail-open has a hole there: for \<^verbatim>\<open>{"sessions": 5}\<close>
  the value returned by \<^verbatim>\<open>load()\<close> is the number 5, not an empty list, against the
  declared \<^verbatim>\<open>Promise<SessionRecord[]>\<close> and unlike the sibling paths (parse error,
  \<^verbatim>\<open>null\<close>, missing or falsy \<^verbatim>\<open>sessions\<close>), which all give \<^verbatim>\<open>[]\<close>. The callers
  then raise a TypeError on it.
\<close>

theorem load_returns_number_for_malformed_store:
  "\<not> validStore (Parsed (JObj [(''sessions'', JNum 5)]))
   \<and> load (idleWorld\<lparr>storeFile := Parsed (JObj [(''sessions'', JNum 5)])\<rparr>) = JNum 5
   \<and> JNum 5 \<noteq> JArr []
   \<and> addSession exampleSession
         (idleWorld\<lparr>storeFile := Parsed (JObj [(''sessions'', JNum 5)])\<rparr>) = Inl TypeError
   \<and> removeSession (containerId exampleSession)
         (idleWorld\<lparr>storeFile := Parsed (JObj [(''sessions'', JNum 5)])\<rparr>) = Inl TypeError
   \<and> getRecoverableSessions
         (idleWorld\<lparr>storeFile := Parsed (JObj [(''sessions'', JNum 5)])\<rparr>) = Inl TypeError"
  by (simp add: validStore_def load_def load_file_def addSession_def removeSession_def
        getRecoverableSessions_def asArray_def asIterable_def)

subsection \<open>Upsert\<close>

text \<open>
  C4: for records \<open>A\<close> and \<open>A'\<close> with the same \<open>containerId\<close>, on a store whose content
  is well typed and a disk that takes the writes, \<open>addSession A\<close> then
  \<open>addSession A'\<close> both succeed, and the next \<open>load\<close> holds exactly one record with
  that id, which is \<open>A'\<close>; container ids that were unique before are unique after.
\<close>

theorem addSession_upsert:
  assumes "containerId A' = containerId A"
    and "asArray (load w) = Inr sessions"
    and "diskWritable w"
  shows "\<exists>w1 w2 stored.
           addSession A w = Inr w1 \<and> addSession A' w1 = Inr w2
           \<and> load w2 = JArr (map toJson stored)
           \<and> asArray (load w2) = Inr stored
           \<and> stored = filter (\<lambda>s. containerId s \<noteq> containerId A) sessions @ [A']
           \<and> filter (\<lambda>s. containerId s = containerId A) stored = [A']
           \<and> (distinct (map containerId sessions) \<longrightarrow> distinct (map containerId stored))"
proof -
  let ?rest = "filter (\<lambda>s. containerId s \<noteq> containerId A) sessions"
  let ?w1 = "w\<lparr>storeFile := Parsed (storeData (?rest @ [A]))\<rparr>"
  let ?w2 = "?w1\<lparr>storeFile := Parsed (storeData (?rest @ [A']))\<rparr>"
  have 1: "addSession A w = Inr ?w1"
    using assms(2,3) by (rule addSession_writable)
  have "asArray (load ?w1) = Inr (?rest @ [A])"
    by (simp only: load_stored asArray_records)
  moreover have "diskWritable ?w1" using assms(3) by simp
  ultimately have "addSession A' ?w1 =
      Inr (?w1\<lparr>storeFile := Parsed (storeData
             (filter (\<lambda>s. containerId s \<noteq> containerId A') (?rest @ [A]) @ [A']))\<rparr>)"
    by (rule addSession_writable)
  then have 2: "addSession A' ?w1 = Inr ?w2"
    using assms(1) by simp
  have 3: "load ?w2 = JArr (map toJson (?rest @ [A']))"
    by (simp only: load_stored)
  have 4: "asArray (load ?w2) = Inr (?rest @ [A'])"
    by (simp only: load_stored asArray_records)
  have 5: "filter (\<lambda>s. containerId s = containerId A) (?rest @ [A']) = [A']"
    using assms(1) by (simp add: filter_empty_conv)
  have 6: "distinct (map containerId sessions) \<longrightarrow> distinct (map containerId (?rest @ [A']))"
    using assms(1) by (auto simp: distinct_map_filter)
  from 1 2 3 4 5 6 show ?thesis by blast
qed

text \<open>C4 on an absent store file, with the two example records.\<close>

theorem addSession_upsert_witness:
  "containerId exampleSession2 = containerId exampleSession
   \<and> (\<exists>w1 w2. addSession exampleSession idleWorld = Inr w1
        \<and> addSession exampleSession2 w1 = Inr w2
        \<and> asArray (load w2) = Inr [exampleSession2])"
proof -
  have a: "containerId exampleSession2 = containerId exampleSession"
    by (simp add: exampleSession2_def)
  have c: "diskWritable idleWorld"
    by (simp add: idleWorld_def)
  from addSession_upsert [OF a load_idleWorld c] a show ?thesis
    by auto
qed

subsection \<open>Round trip\<close>

lemma addAll_distinct:
  "asArray (load w) = Inr sessions \<Longrightarrow> diskWritable w \<Longrightarrow> distinct (map containerId rs) \<Longrightarrow>
   \<exists>w'. addAll rs w = Inr w' \<and> diskWritable w'
     \<and> asArray (load w') =
         Inr (filter (\<lambda>s. containerId s \<notin> set (map containerId rs)) sessions @ rs)"
proof (induction rs arbitrary: w sessions)
  case Nil
  then show ?case by simp
next
  case (Cons r rs)
  let ?s1 = "filter (\<lambda>s. containerId s \<noteq> containerId r) sessions @ [r]"
  let ?w1 = "w\<lparr>storeFile := Parsed (storeData ?s1)\<rparr>"
  have step: "addSession r w = Inr ?w1"
    using Cons.prems(1,2) by (rule addSession_writable)
  have l1: "asArray (load ?w1) = Inr ?s1"
    by (simp only: load_stored asArray_records)
  have d1: "diskWritable ?w1" using Cons.prems(2) by simp
  have dr: "distinct (map containerId rs)" and nr: "containerId r \<notin> set (map containerId rs)"
    using Cons.prems(3) by simp_all
  from Cons.IH[OF l1 d1 dr] obtain w' where
    w': "addAll rs ?w1 = Inr w'" "diskWritable w'"
        "asArray (load w') =
           Inr (filter (\<lambda>s. containerId s \<notin> set (map containerId rs)) ?s1 @ rs)"
    by blast
  have "filter (\<lambda>s. containerId s \<notin> set (map containerId rs)) ?s1 @ rs
        = filter (\<lambda>s. containerId s \<notin> set (map containerId (r # rs))) sessions @ r # rs"
    using nr by (auto intro: filter_cong)
  with w' step show ?case by simp
qed

text \<open>
  C9: whatever list \<open>save\<close> writes, the next \<open>load\<close> returns it record for record; and
  records with pairwise different container ids, written one \<open>addSession\<close> after the
  other to an empty store on a disk that takes the writes, are exactly what the next
  \<open>load\<close> returns; added to a store that holds records already, they replace the
  records with their ids and follow the others. (\<open>toJson\<close> is injective, so equal
  JSON is equal field for field.)
\<close>

theorem save_load_roundtrip:
  "(save rs w = Inr w' \<longrightarrow> load w' = JArr (map toJson rs) \<and> asArray (load w') = Inr rs)
   \<and> (diskWritable w \<and> asArray (load w) = Inr [] \<and> distinct (map containerId rs)
        \<longrightarrow> (\<exists>w''. addAll rs w = Inr w'' \<and> load w'' = JArr (map toJson rs)
                    \<and> asArray (load w'') = Inr rs))
   \<and> (diskWritable w \<and> asArray (load w) = Inr sessions \<and> distinct (map containerId rs)
        \<longrightarrow> (\<exists>w''. addAll rs w = Inr w''
                    \<and> asArray (load w'') =
                        Inr (filter (\<lambda>s. containerId s \<notin> set (map containerId rs)) sessions
                             @ rs)))
   \<and> (toJson a = toJson b \<longrightarrow> a = b)"
proof (intro conjI impI)
  assume "save rs w = Inr w'"
  then have "w' = w\<lparr>storeFile := Parsed (storeData rs)\<rparr>" by (rule save_Inr)
  then show "load w' = JArr (map toJson rs)" "asArray (load w') = Inr rs"
    by (simp_all only: load_stored asArray_records)
next
  assume h: "diskWritable w \<and> asArray (load w) = Inr [] \<and> distinct (map containerId rs)"
  then obtain w'' where "addAll rs w = Inr w''" "asArray (load w'') = Inr rs"
    using addAll_distinct [of w "[]" rs] by auto
  then show "\<exists>w''. addAll rs w = Inr w'' \<and> load w'' = JArr (map toJson rs)
                \<and> asArray (load w'') = Inr rs"
    using asArray_Inr by blast
next
  assume "diskWritable w \<and> asArray (load w) = Inr sessions \<and> distinct (map containerId rs)"
  then show "\<exists>w''. addAll rs w = Inr w''
                \<and> asArray (load w'') =
                    Inr (filter (\<lambda>s. containerId s \<notin> set (map containerId rs)) sessions @ rs)"
    using addAll_distinct [of w sessions rs] by auto
next
  assume "toJson a = toJson b"
  then have "fromJson (toJson a) = fromJson (toJson b)" by simp
  then show "a = b" by (simp add: fromJson_toJson)
qed

text \<open>C9 on the example record, saved and added to an absent store.\<close>

theorem save_load_roundtrip_witness:
  "save [exampleSession] idleWorld
     = Inr (idleWorld\<lparr>storeFile := Parsed (storeData [exampleSession])\<rparr>)
   \<and> asArray (load (idleWorld\<lparr>storeFile := Parsed (storeData [exampleSession])\<rparr>))
       = Inr [exampleSession]
   \<and> (\<exists>w''. addAll [exampleSession] idleWorld = Inr w''
         \<and> asArray (load w'') = Inr [exampleSession])"
proof -
  let ?w1 = "idleWorld\<lparr>storeFile := Parsed (storeData [exampleSession])\<rparr>"
  have s: "save [exampleSession] idleWorld = Inr ?w1"
    by (simp add: save_def idleWorld_def)
  have d: "diskWritable idleWorld \<and> asArray (load idleWorld) = Inr []
             \<and> distinct (map containerId [exampleSession])"
    using load_idleWorld by (simp add: idleWorld_def)
  note t = save_load_roundtrip [of "[exampleSession]" idleWorld ?w1]
  from t s have 1: "asArray (load ?w1) = Inr [exampleSession]"
    by blast
  from t d have 2: "\<exists>w''. addAll [exampleSession] idleWorld = Inr w''
                      \<and> asArray (load w'') = Inr [exampleSession]"
    by blast
  from s 1 2 show ?thesis by blast
qed

subsection \<open>The recoverable set\<close>

lemma recoverableLoop_eq:
  "recoverableLoop w sessions results =
     results @ map (enrich w)
       (filter (\<lambda>s. stateOf w s \<noteq> Gone \<or> pathExists w (shadowRepoPath s)) sessions)"
  by (induction sessions arbitrary: results) (simp_all add: Let_def enrich_def)

lemma truncate_enrich: "SessionRecord.truncate (enrich w s) = s"
  by (simp add: enrich_def SessionRecord.truncate_def SessionRecord.extend_def)

lemma enrich_inj: "enrich w s = enrich w s' \<Longrightarrow> s = s'"
  by (metis truncate_enrich)

lemma enrich_state:
  "containerState (enrich w s) = stateOf w s"
  "shadowExists (enrich w s) = pathExists w (shadowRepoPath s)"
  by (simp_all add: enrich_def SessionRecord.extend_def)

text \<open>
  C2: on a store whose content is a list of records, \<open>getRecoverableSessions\<close>
  returns, in store order, the enriched form of exactly those sessions whose container is
  not gone or whose shadow repo exists: a stored session is in the result iff that holds,
  no element is gone and shadow-less, and every element comes from a stored session.
\<close>

theorem getRecoverableSessions_iff:
  assumes "asIterable (load w) = Inr sessions"
  shows "\<exists>rs. getRecoverableSessions w = Inr rs
     \<and> rs = map (enrich w)
              (filter (\<lambda>s. stateOf w s \<noteq> Gone \<or> pathExists w (shadowRepoPath s)) sessions)
     \<and> (\<forall>s \<in> set sessions.
           (enrich w s \<in> set rs) = (stateOf w s \<noteq> Gone \<or> pathExists w (shadowRepoPath s)))
     \<and> (\<forall>r \<in> set rs. \<not> (containerState r = Gone \<and> \<not> shadowExists r))
     \<and> (\<forall>r \<in> set rs. SessionRecord.truncate r \<in> set sessions)"
  using assms
  by (auto simp: getRecoverableSessions_def recoverableLoop_eq enrich_state truncate_enrich
           dest: enrich_inj)

text \<open>C2 on a store with one record whose container is gone and whose shadow repo exists.\<close>

theorem getRecoverableSessions_iff_witness:
  "getRecoverableSessions
     (idleWorld\<lparr>storeFile := Parsed (storeData [exampleSession]),
                fsPaths := [shadowRepoPath exampleSession]\<rparr>)
   = Inr [SessionRecord.extend exampleSession \<lparr>containerState = Gone, shadowExists = True\<rparr>]"
proof -
  let ?w = "idleWorld\<lparr>storeFile := Parsed (storeData [exampleSession]),
                      fsPaths := [shadowRepoPath exampleSession]\<rparr>"
  have h: "asIterable (load ?w) = Inr [exampleSession]"
    using asIterable_records [of "[exampleSession]"] by (simp add: load_def load_file_storeData)
  have g: "stateOf ?w exampleSession = Gone"
    by (simp add: stateOf_def inspect_def idleWorld_def)
  have p: "pathExists ?w (shadowRepoPath exampleSession)"
    by (simp add: pathExists_def)
  from getRecoverableSessions_iff [OF h] g p show ?thesis
    by (simp add: enrich_def)
qed


section \<open>Properties of the recovery actions\<close>

lemma load_quiet [simp]:
  "load (say m w) = load w" "load (ask m w) = load w" "load (exec d c w) = load w"
  by (simp_all add: load_def say_def ask_def exec_def)

lemma quiet_fields [simp]:
  "storeFile (say m w) = storeFile w" "storeFile (ask m w) = storeFile w"
  "storeFile (exec d c w) = storeFile w"
  "diskWritable (say m w) = diskWritable w" "diskWritable (ask m w) = diskWritable w"
  "diskWritable (exec d c w) = diskWritable w"
  "fsPaths (say m w) = fsPaths w" "fsPaths (ask m w) = fsPaths w"
  "fsPaths (exec d c w) = fsPaths w"
  "containers (say m w) = containers w" "containers (ask m w) = containers w"
  "containers (exec d c w) = containers w"
  "dockerUp (say m w) = dockerUp w" "dockerUp (ask m w) = dockerUp w"
  "dockerUp (exec d c w) = dockerUp w"
  "shellLog (say m w) = shellLog w" "shellLog (ask m w) = shellLog w"
  "shellLog (exec d c w) = shellLog w @ [(d, c)]"
  "console (say m w) = console w @ [m]" "console (ask m w) = console w @ [''? '' @ m]"
  "console (exec d c w) = console w"
  by (simp_all add: say_def ask_def exec_def)

lemma offerActions_fields [simp]:
  "load (offerActions s w) = load w" "diskWritable (offerActions s w) = diskWritable w"
  "storeFile (offerActions s w) = storeFile w" "fsPaths (offerActions s w) = fsPaths w"
  "containers (offerActions s w) = containers w" "shellLog (offerActions s w) = shellLog w"
  by (simp_all add: offerActions_def)

lemma recoverSession_gone_shadow:
  assumes "containerState session = Gone" and "shadowExists session"
  shows "recoverSession env session w =
    (case chosenAction env of
       Push \<Rightarrow> (Returned, pushAction env session (offerActions session w))
     | Copy \<Rightarrow> copyAction env session (offerActions session w)
     | Show \<Rightarrow> (Returned, showAction session (offerActions session w))
     | Discard \<Rightarrow> discardAction env session (offerActions session w))"
  using assms by (simp add: recoverSession_def Let_def)

lemma goneShadowSession_fields:
  "containerState goneShadowSession = Gone" "shadowExists goneShadowSession"
  "shadowRepoPath goneShadowSession = shadowRepoPath exampleSession"
  "containerId goneShadowSession = containerId exampleSession"
  by (simp_all add: goneShadowSession_def SessionRecord.extend_def)

lemma asArray_shadowWorld: "asArray (load shadowWorld) = Inr [exampleSession]"
  using asArray_records [of "[exampleSession]"]
  by (simp add: shadowWorld_def load_def load_file_storeData)

lemma asIterable_shadowWorld: "asIterable (load shadowWorld) = Inr [exampleSession]"
  using asIterable_records [of "[exampleSession]"]
  by (simp add: shadowWorld_def load_def load_file_storeData)

subsection \<open>Discard\<close>

lemma discard_confirmed:
  assumes "confirmDiscard env" and "diskWritable w" and "asArray (load w) = Inr sessions"
  shows "\<exists>w'. discardAction env session w = (Returned, w')
           \<and> fsPaths w' = filter (\<lambda>q. \<not> under (shadowRepoPath session) q) (fsPaths w)
           \<and> load w' = JArr (map toJson
                (filter (\<lambda>s. containerId s \<noteq> containerId session) sessions))"
proof -
  let ?w1 = "ask ''Are you sure? This will delete the shadow repo permanently.'' w"
  let ?w2 = "?w1\<lparr>fsPaths := filter (\<lambda>q. \<not> under (shadowRepoPath session) q) (fsPaths ?w1)\<rparr>"
  let ?w3 = "?w2\<lparr>storeFile := Parsed (storeData
               (filter (\<lambda>s. containerId s \<noteq> containerId session) sessions))\<rparr>"
  have rt: "removeTree (shadowRepoPath session) ?w1 = Inr ?w2"
    using assms(2) by (simp add: removeTree_def)
  have "asArray (load ?w2) = Inr sessions" "diskWritable ?w2"
    using assms(2,3) by (simp_all add: load_def)
  then have rs: "removeSession (containerId session) ?w2 = Inr ?w3"
    by (rule removeSession_writable)
  have "discardAction env session w
          = (Returned, say ''Shadow repo and session record removed.'' ?w3)"
    unfolding discardAction_def Let_def using assms(1) by (simp only: rt rs if_True sum.case)
  moreover have "fsPaths (say ''Shadow repo and session record removed.'' ?w3)
                  = filter (\<lambda>q. \<not> under (shadowRepoPath session) q) (fsPaths w)"
    by simp
  moreover have "load (say ''Shadow repo and session record removed.'' ?w3)
      = JArr (map toJson (filter (\<lambda>s. containerId s \<noteq> containerId session) sessions))"
    by (simp only: load_quiet load_stored)
  ultimately show ?thesis by blast
qed

lemma discard_declined:
  assumes "\<not> confirmDiscard env"
  shows "discardAction env session w =
           (Returned, say ''Discard cancelled.''
              (ask ''Are you sure? This will delete the shadow repo permanently.'' w))"
  using assms by (simp add: discardAction_def Let_def)

lemma discard_asks:
  "''? Are you sure? This will delete the shadow repo permanently.''
     \<in> set (console (snd (discardAction env session w)))"
  by (simp add: discardAction_def Let_def removeTree_def removeSession_def save_def
        split: sum.split)

text \<open>
  C7: for a gone session with a shadow repo and the discard action, the confirmation
  question is put in every run. When the operator confirms (and the disk takes the
  changes, the store being well typed) the shadow directory and everything under it are
  gone and the record is removed from the store; when the operator declines, the store
  file, the paths, the containers and the shell log are as before.
\<close>

theorem discard_needs_confirmation:
  assumes "containerState session = Gone" and "shadowExists session"
    and "chosenAction env = Discard"
  shows "(confirmDiscard env \<and> diskWritable w \<and> asArray (load w) = Inr sessions \<longrightarrow>
           (\<exists>w'. recoverSession env session w = (Returned, w')
              \<and> (\<forall>q \<in> set (fsPaths w'). \<not> under (shadowRepoPath session) q)
              \<and> \<not> pathExists w' (shadowRepoPath session)
              \<and> asArray (load w') =
                  Inr (filter (\<lambda>s. containerId s \<noteq> containerId session) sessions)))
       \<and> (\<not> confirmDiscard env \<longrightarrow>
           (\<exists>w'. recoverSession env session w = (Returned, w')
              \<and> storeFile w' = storeFile w \<and> fsPaths w' = fsPaths w
              \<and> containers w' = containers w \<and> shellLog w' = shellLog w))
       \<and> ''? Are you sure? This will delete the shadow repo permanently.''
            \<in> set (console (snd (recoverSession env session w)))"
proof (intro conjI impI)
  have rs: "recoverSession env session w = discardAction env session (offerActions session w)"
    using assms by (simp add: recoverSession_gone_shadow)
  {
    assume h: "confirmDiscard env \<and> diskWritable w \<and> asArray (load w) = Inr sessions"
    then obtain w' where
      w': "discardAction env session (offerActions session w) = (Returned, w')"
      "fsPaths w' = filter (\<lambda>q. \<not> under (shadowRepoPath session) q)
                      (fsPaths (offerActions session w))"
      "load w' = JArr (map toJson
                   (filter (\<lambda>s. containerId s \<noteq> containerId session) sessions))"
      using discard_confirmed [of env "offerActions session w" sessions session] by auto
    then show "\<exists>w'. recoverSession env session w = (Returned, w')
              \<and> (\<forall>q \<in> set (fsPaths w'). \<not> under (shadowRepoPath session) q)
              \<and> \<not> pathExists w' (shadowRepoPath session)
              \<and> asArray (load w') =
                  Inr (filter (\<lambda>s. containerId s \<noteq> containerId session) sessions)"
      using rs by (auto simp: pathExists_def under_def asArray_records)
  }
  {
    assume "\<not> confirmDiscard env"
    then show "\<exists>w'. recoverSession env session w = (Returned, w')
              \<and> storeFile w' = storeFile w \<and> fsPaths w' = fsPaths w
              \<and> containers w' = containers w \<and> shellLog w' = shellLog w"
      using rs by (simp add: discard_declined)
  }
  show "''? Are you sure? This will delete the shadow repo permanently.''
            \<in> set (console (snd (recoverSession env session w)))"
    unfolding rs by (rule discard_asks)
qed

text \<open>C7 on the example machine: the operator declines, and the operator confirms.\<close>

theorem discard_needs_confirmation_witness:
  "(\<exists>w'. recoverSession (discardEnv False) goneShadowSession shadowWorld = (Returned, w')
        \<and> storeFile w' = storeFile shadowWorld \<and> fsPaths w' = fsPaths shadowWorld)
   \<and> (\<exists>w'. recoverSession (discardEnv True) goneShadowSession shadowWorld = (Returned, w')
        \<and> \<not> pathExists w' (shadowRepoPath exampleSession)
        \<and> asArray (load w') = Inr [])"
proof -
  have e: "chosenAction (discardEnv False) = Discard" "\<not> confirmDiscard (discardEnv False)"
    "chosenAction (discardEnv True) = Discard" "confirmDiscard (discardEnv True)"
    by (simp_all add: discardEnv_def)
  have d: "diskWritable shadowWorld"
    by (simp add: shadowWorld_def idleWorld_def)
  have 1: "\<exists>w'. recoverSession (discardEnv False) goneShadowSession shadowWorld = (Returned, w')
        \<and> storeFile w' = storeFile shadowWorld \<and> fsPaths w' = fsPaths shadowWorld"
    using discard_needs_confirmation
            [OF goneShadowSession_fields(1,2) e(1), of shadowWorld "[exampleSession]"] e(2)
    by blast
  have 2: "\<exists>w'. recoverSession (discardEnv True) goneShadowSession shadowWorld = (Returned, w')
        \<and> \<not> pathExists w' (shadowRepoPath exampleSession)
        \<and> asArray (load w') = Inr []"
    using discard_needs_confirmation
            [OF goneShadowSession_fields(1,2) e(3), of shadowWorld "[exampleSession]"]
          e(4) d asArray_shadowWorld
    by (auto simp: goneShadowSession_fields)
  from 1 2 show ?thesis by blast
qed

subsection \<open>Unrecoverable sessions\<close>

text \<open>
  Called on a gone session without a shadow repo, \<open>recoverSession\<close> does remove the
  record: this is the last branch of the function.
\<close>

lemma recoverSession_unrecoverable:
  assumes "containerState session = Gone" and "\<not> shadowExists session"
    and "diskWritable w" and "asArray (load w) = Inr sessions"
  shows "\<exists>w'. recoverSession env session w = (Returned, w')
           \<and> load w' = JArr (map toJson
                (filter (\<lambda>s. containerId s \<noteq> containerId session) sessions))"
proof -
  let ?w1 = "say (''Session '' @ sessionId session
                  @ '' is unrecoverable (container and shadow repo both gone).'') w"
  let ?w2 = "?w1\<lparr>storeFile := Parsed (storeData
               (filter (\<lambda>s. containerId s \<noteq> containerId session) sessions))\<rparr>"
  have "asArray (load ?w1) = Inr sessions" "diskWritable ?w1"
    using assms(3,4) by simp_all
  then have rs: "removeSession (containerId session) ?w1 = Inr ?w2"
    by (rule removeSession_writable)
  have "recoverSession env session w = (Returned, say ''Session record cleaned up.'' ?w2)"
    unfolding recoverSession_def Let_def using assms(1,2) by (simp only: rs) simp
  moreover have "load (say ''Session record cleaned up.'' ?w2)
     = JArr (map toJson (filter (\<lambda>s. containerId s \<noteq> containerId session) sessions))"
    by (simp only: load_quiet load_stored)
  ultimately show ?thesis by blast
qed

lemma asIterable_load_dangling: "asIterable (load danglingWorld) = Inr [exampleSession]"
  using asIterable_records [of "[exampleSession]"]
  by (simp add: danglingWorld_def load_def load_file_storeData)

text \<open>
  C1 fails on the code: the \<^verbatim>\<open>recover\<close> command only ever passes
  \<open>recoverSession\<close> a session that \<open>getRecoverableSessions\<close> returned, and that
  function leaves out the gone and shadow-less ones. With the example record in the
  store, no container and no shadow directory, the command reports that there is nothing
  to recover and returns, whatever the operator would choose; the record is still what
  \<open>load\<close> returns afterwards.
\<close>

theorem recover_leaves_unrecoverable_record:
  "stateOf danglingWorld exampleSession = Gone
   \<and> \<not> pathExists danglingWorld (shadowRepoPath exampleSession)
   \<and> getRecoverableSessions danglingWorld = Inr []
   \<and> recoverCommand listOnly selectedId env danglingWorld
       = (Returned, say ''No recoverable sessions found.'' danglingWorld)
   \<and> load (snd (recoverCommand listOnly selectedId env danglingWorld))
       = JArr [toJson exampleSession]"
proof -
  have g: "stateOf danglingWorld exampleSession = Gone"
    by (simp add: stateOf_def inspect_def danglingWorld_def idleWorld_def)
  have p: "\<not> pathExists danglingWorld (shadowRepoPath exampleSession)"
    by (simp add: pathExists_def danglingWorld_def idleWorld_def)
  have r: "getRecoverableSessions danglingWorld = Inr []"
    using g p by (simp add: getRecoverableSessions_def asIterable_load_dangling)
  have c: "recoverCommand listOnly selectedId env danglingWorld
       = (Returned, say ''No recoverable sessions found.'' danglingWorld)"
    by (simp add: recoverCommand_def r)
  have l: "load (say ''No recoverable sessions found.'' danglingWorld)
             = JArr [toJson exampleSession]"
    by (simp add: danglingWorld_def load_def load_file_storeData)
  from g p r c l show ?thesis by simp
qed


text \<open>No action of \<open>recoverSession\<close> touches a record with another container id.\<close>

lemma removeSession_Inr:
  assumes "removeSession cid w = Inr w'"
  shows "\<exists>cur. asArray (load w) = Inr cur
          \<and> w' = w\<lparr>storeFile := Parsed (storeData (filter (\<lambda>s. containerId s \<noteq> cid) cur))\<rparr>"
  using assms by (auto simp: removeSession_def split: sum.splits dest: save_Inr)

lemma storeHolds_cong: "storeFile w' = storeFile w \<Longrightarrow> storeHolds w' r = storeHolds w r"
  by (simp add: storeHolds_def load_def)

lemma storeHolds_quiet [simp]:
  "storeHolds (say m w) r = storeHolds w r" "storeHolds (ask m w) r = storeHolds w r"
  "storeHolds (exec d c w) r = storeHolds w r" "storeHolds (offerActions s w) r = storeHolds w r"
  by (simp_all add: storeHolds_def)

lemma removeSession_holds:
  assumes "storeHolds w r" and "containerId r \<noteq> cid" and "removeSession cid w = Inr w'"
  shows "storeHolds w' r"
proof -
  from removeSession_Inr [OF assms(3)] obtain cur where
    c: "asArray (load w) = Inr cur"
    and w': "w' = w\<lparr>storeFile := Parsed (storeData (filter (\<lambda>s. containerId s \<noteq> cid) cur))\<rparr>"
    by blast
  have "asArray (load w') = Inr (filter (\<lambda>s. containerId s \<noteq> cid) cur)"
    unfolding w' by (simp only: load_stored asArray_records)
  with assms(1,2) c show ?thesis by (simp add: storeHolds_def)
qed

lemma findIndex_Some: "findIndex P xs = Some i \<Longrightarrow> i < length xs \<and> P (xs ! i)"
  by (induction xs arbitrary: i) (auto split: if_splits)

lemma updateSession_holds:
  assumes "storeHolds w r" and "containerId r \<noteq> cid" and "updateSession cid f w = Inr w'"
  shows "storeHolds w' r"
proof -
  from assms(1) obtain cur where c: "asArray (load w) = Inr cur" and r: "r \<in> set cur"
    by (auto simp: storeHolds_def split: sum.splits)
  show ?thesis
  proof (cases "findIndex (\<lambda>s. containerId s = cid) cur")
    case None
    with assms(3) c have "w' = w" by (simp add: updateSession_def)
    with assms(1) show ?thesis by simp
  next
    case (Some idx)
    with assms(3) c have "save (cur[idx := f (cur ! idx)]) w = Inr w'"
      by (simp add: updateSession_def)
    then have w': "w' = w\<lparr>storeFile := Parsed (storeData (cur[idx := f (cur ! idx)]))\<rparr>"
      by (rule save_Inr)
    have l: "asArray (load w') = Inr (cur[idx := f (cur ! idx)])"
      unfolding w' by (simp only: load_stored asArray_records)
    from findIndex_Some [OF Some] have i: "idx < length cur" "containerId (cur ! idx) = cid"
      by simp_all
    from r obtain j where j: "j < length cur" "cur ! j = r"
      by (auto simp: in_set_conv_nth)
    with i assms(2) have "j \<noteq> idx" by auto
    with j have "(cur[idx := f (cur ! idx)]) ! j = r" by simp
    with j(1) have "r \<in> set (cur[idx := f (cur ! idx)])"
      by (metis length_list_update nth_mem)
    with l show ?thesis by (simp add: storeHolds_def)
  qed
qed

lemma startContainer_store: "startContainer cid w = Inr w' \<Longrightarrow> storeFile w' = storeFile w"
  by (auto simp: startContainer_def split: sum.splits)

lemma removeTree_store: "removeTree p w = Inr w' \<Longrightarrow> storeFile w' = storeFile w"
  by (auto simp: removeTree_def split: if_splits)

lemma copyTree_store: "copyTree a b w = Inr w' \<Longrightarrow> storeFile w' = storeFile w"
  by (auto simp: copyTree_def split: if_splits)

lemma reattach_holds:
  assumes "storeHolds w r" and "containerId r \<noteq> containerId session"
  shows "storeHolds (snd (reattach env session w)) r"
  using assms
  by (auto simp: reattach_def Let_def split: option.splits sum.splits
        dest: updateSession_holds [rotated 2])

lemma pushAction_holds:
  assumes "storeHolds w r" and "containerId r \<noteq> containerId session"
  shows "storeHolds (pushAction env session w) r"
  using assms
  by (auto simp: pushAction_def Let_def pushFailed_def split: option.splits sum.splits
        dest: removeSession_holds [rotated 2])

lemma copyAction_holds:
  assumes "storeHolds w r" and "containerId r \<noteq> containerId session"
  shows "storeHolds (snd (copyAction env session w)) r"
proof (cases "copyTree (shadowRepoPath session) (resolvedDest env) (ask ''Enter destination path:'' w)")
  case (Inl e)
  then show ?thesis using assms(1) by (simp add: copyAction_def Let_def)
next
  case (Inr w2)
  from copyTree_store [OF Inr] have "storeHolds w2 r"
    using assms(1) storeHolds_cong [of w2 "ask ''Enter destination path:'' w" r] by simp
  then have h3: "storeHolds (say (''Copied to: '' @ resolvedDest env) w2) r" by simp
  show ?thesis
  proof (cases "removeSession (containerId session) (say (''Copied to: '' @ resolvedDest env) w2)")
    case (Inl e)
    then show ?thesis using Inr h3 by (simp add: copyAction_def Let_def)
  next
    case (Inr w4)
    from removeSession_holds [OF h3 assms(2) Inr] show ?thesis
      using \<open>copyTree _ _ _ = Inr w2\<close> Inr by (simp add: copyAction_def Let_def)
  qed
qed

lemma discardAction_holds:
  assumes "storeHolds w r" and "containerId r \<noteq> containerId session"
  shows "storeHolds (snd (discardAction env session w)) r"
proof (cases "confirmDiscard env")
  case False
  then show ?thesis using assms(1) by (simp add: discard_declined)
next
  case True
  let ?w1 = "ask ''Are you sure? This will delete the shadow repo permanently.'' w"
  show ?thesis
  proof (cases "removeTree (shadowRepoPath session) ?w1")
    case (Inl e)
    then show ?thesis using True assms(1) by (simp add: discardAction_def Let_def)
  next
    case (Inr w2)
    from removeTree_store [OF Inr] have h2: "storeHolds w2 r"
      using assms(1) storeHolds_cong [of w2 ?w1 r] by simp
    show ?thesis
    proof (cases "removeSession (containerId session) w2")
      case (Inl e)
      then show ?thesis using True Inr h2 by (simp add: discardAction_def Let_def)
    next
      case (Inr w3)
      from removeSession_holds [OF h2 assms(2) Inr] show ?thesis
        using True \<open>removeTree _ _ = Inr w2\<close> Inr by (simp add: discardAction_def Let_def)
    qed
  qed
qed

lemma unrecoverable_branch_holds:
  assumes "storeHolds w r" and "containerId r \<noteq> cid"
  shows "storeHolds (snd (case removeSession cid (say m w) of
                            Inl e \<Rightarrow> (Raised e, say m w)
                          | Inr w2 \<Rightarrow> (Returned, say m2 w2))) r"
proof (cases "removeSession cid (say m w)")
  case (Inl e)
  then show ?thesis using assms(1) by simp
next
  case (Inr w2)
  have "storeHolds (say m w) r" using assms(1) by simp
  from removeSession_holds [OF this assms(2) Inr] show ?thesis using Inr by simp
qed

lemma stopped_branch_holds:
  assumes "storeHolds w r" and "containerId r \<noteq> containerId session"
  shows "storeHolds (snd (case startContainer (containerId session) (say m w) of
                            Inl e \<Rightarrow> (Raised e, say m w)
                          | Inr w2 \<Rightarrow> reattach env session (say m2 w2))) r"
proof (cases "startContainer (containerId session) (say m w)")
  case (Inl e)
  then show ?thesis using assms(1) by simp
next
  case (Inr w2)
  from startContainer_store [OF Inr] have "storeHolds w2 r"
    using assms(1) storeHolds_cong [of w2 "say m w" r] by simp
  then have "storeHolds (say m2 w2) r" by simp
  from reattach_holds [OF this assms(2)] show ?thesis using Inr by simp
qed

lemma recoverSession_holds:
  assumes "storeHolds w r" and "containerId r \<noteq> containerId session"
  shows "storeHolds (snd (recoverSession env session w)) r"
proof -
  consider "containerState session = Running" | "containerState session = Stopped"
    | "containerState session = Gone" "shadowExists session"
    | "containerState session = Gone" "\<not> shadowExists session"
    by (cases "containerState session") auto
  then show ?thesis
  proof cases
    case 1
    have "storeHolds (say (''Container '' @ sessionId session @ '' is running. Launching Web UI...'') w) r"
      using assms(1) by simp
    from reattach_holds [OF this assms(2)] show ?thesis
      using 1 by (simp add: recoverSession_def)
  next
    case 2
    then show ?thesis
      using stopped_branch_holds [OF assms] by (simp add: recoverSession_def Let_def)
  next
    case 3
    have h: "storeHolds (offerActions session w) r" using assms(1) by simp
    show ?thesis
      unfolding recoverSession_gone_shadow [OF 3]
      using pushAction_holds [OF h assms(2)] copyAction_holds [OF h assms(2)]
        discardAction_holds [OF h assms(2)] h
      by (cases "chosenAction env") (simp_all add: showAction_def)
  next
    case 4
    then show ?thesis
      using unrecoverable_branch_holds [OF assms] by (simp add: recoverSession_def Let_def)
  qed
qed

lemma foldl_say_store:
  "storeFile (foldl (\<lambda>w s. say (f s) w) w xs) = storeFile w"
  by (induction xs arbitrary: w) simp_all

text \<open>
  So on every store a \<^verbatim>\<open>recover\<close> run, whatever is picked and however it ends,
  leaves a gone and shadow-less record where it is (when no other record shares its
  container id).
\<close>

lemma recover_never_removes_unrecoverable:
  assumes "asIterable (load w) = Inr sessions" and "W \<in> set sessions"
    and "stateOf w W = Gone" and "\<not> pathExists w (shadowRepoPath W)"
    and "\<forall>s \<in> set sessions. containerId s = containerId W \<longrightarrow> s = W"
  shows "storeHolds (snd (recoverCommand listOnly selectedId env w)) W"
proof -
  let ?rs = "map (enrich w)
              (filter (\<lambda>s. stateOf w s \<noteq> Gone \<or> pathExists w (shadowRepoPath s)) sessions)"
  have g: "getRecoverableSessions w = Inr ?rs"
    using assms(1) by (simp add: getRecoverableSessions_def recoverableLoop_eq)
  have h0: "storeHolds w W"
    using assms(1,2) asIterable_Inr [OF assms(1)] by (simp add: storeHolds_def asArray_records)
  let ?w2 = "foldl (\<lambda>w s. say (''  '' @ sessionId s @ '' | '' @ branchName s) w)
               (say ''Found recoverable session(s):'' w) ?rs"
  have h2: "storeHolds ?w2 W"
    using h0 storeHolds_cong [of ?w2 w W] by (simp add: foldl_say_store)
  let ?w3 = "ask ''Select a session to recover:'' ?w2"
  have h3: "storeHolds ?w3 W" using h2 by simp
  show ?thesis
  proof (cases "?rs = [] \<or> listOnly")
    case True
    then show ?thesis using g h0 h2 by (auto simp: recoverCommand_def Let_def)
  next
    case False
    show ?thesis
    proof (cases "find (\<lambda>s. containerId s = selectedId) ?rs")
      case None
      then show ?thesis using g False h3 by (simp add: recoverCommand_def Let_def)
    next
      case (Some session)
      then have "session \<in> set ?rs" by (metis find_Some_iff nth_mem)
      then obtain s where s: "s \<in> set sessions" "session = enrich w s"
        "stateOf w s \<noteq> Gone \<or> pathExists w (shadowRepoPath s)"
        by auto
      with assms(3,4) have "s \<noteq> W" by auto
      with s(1) assms(5) have "containerId s \<noteq> containerId W" by auto
      moreover have "containerId session = containerId s"
        by (simp add: s(2) enrich_def SessionRecord.extend_def)
      ultimately have ne: "containerId W \<noteq> containerId session" by simp
      obtain out w4 where r: "recoverSession env session ?w3 = (out, w4)"
        by (cases "recoverSession env session ?w3") auto
      from recoverSession_holds [OF h3 ne, of env] r have h4: "storeHolds w4 W" by simp
      show ?thesis
        using g False Some r h4
        by (cases out) (simp_all add: recoverCommand_def Let_def)
    qed
  qed
qed

subsection \<open>Push\<close>

text \<open>\<open>str_includes s sub\<close> is \<^verbatim>\<open>s.includes(sub)\<close>: \<open>sub\<close> occurs somewhere in \<open>s\<close>.\<close>

lemma str_includes_iff: "str_includes s sub = (\<exists>a b. s = a @ sub @ b)"
proof (induction s)
  case Nil
  show ?case by auto
next
  case (Cons c cs)
  show ?case
  proof
    assume "str_includes (c # cs) sub"
    then consider "prefix sub (c # cs)" | "str_includes cs sub" by auto
    then show "\<exists>a b. c # cs = a @ sub @ b"
    proof cases
      case 1
      then obtain b where "c # cs = sub @ b" by (auto simp: prefix_def)
      then have "c # cs = [] @ sub @ b" by simp
      then show ?thesis by blast
    next
      case 2
      with Cons obtain a b where "cs = a @ sub @ b" by auto
      then have "c # cs = (c # a) @ sub @ b" by simp
      then show ?thesis by blast
    qed
  next
    assume "\<exists>a b. c # cs = a @ sub @ b"
    then obtain a b where ab: "c # cs = a @ sub @ b" by blast
    show "str_includes (c # cs) sub"
    proof (cases a)
      case Nil
      with ab have "prefix sub (c # cs)" by (simp add: prefix_def)
      then show ?thesis by simp
    next
      case (Cons x a')
      with ab have "cs = a' @ sub @ b" by simp
      with Cons.IH have "str_includes cs sub" by blast
      then show ?thesis by simp
    qed
  qed
qed

text \<open>A configured remote shows in the output of \<^verbatim>\<open>git remote -v\<close> under its name.\<close>

lemma remoteOutput_named:
  assumes "(name, url) \<in> set rs"
  shows "str_includes (remoteOutput rs) name"
proof -
  from assms obtain xs ys where rs: "rs = xs @ (name, url) # ys"
    by (auto simp: in_set_conv_decomp)
  have "remoteOutput rs = remoteOutput xs @ name
          @ ([CHR 0x09] @ url @ '' (fetch)'' @ [CHR 0x0A]
             @ name @ [CHR 0x09] @ url @ '' (push)'' @ [CHR 0x0A] @ remoteOutput ys)"
    by (simp add: rs remoteOutput_def)
  then show ?thesis unfolding str_includes_iff by blast
qed

text \<open>
  What the push action does keep: without the text \<^verbatim>\<open>origin\<close> in the output of
  \<^verbatim>\<open>git remote -v\<close> it stops after that one command; it never touches the paths;
  the store changes only when every step succeeded; a failed step is reported; and when
  every step succeeds the record is removed.
\<close>

lemma push_aborts_without_origin_text:
  assumes "gitRemoteOk env" and "\<not> str_includes (remoteOutput (remotes env)) ''origin''"
  shows "storeFile (pushAction env session w) = storeFile w
       \<and> fsPaths (pushAction env session w) = fsPaths w
       \<and> shellLog (pushAction env session w) = shellLog w @ [(shadowRepoPath session, ''git remote -v'')]
       \<and> ''No remote origin configured in shadow repo.'' \<in> set (console (pushAction env session w))"
  using assms by (simp add: pushAction_def Let_def)

lemma removeSession_fields:
  "removeSession cid w = Inr w' \<Longrightarrow>
     fsPaths w' = fsPaths w \<and> shellLog w' = shellLog w \<and> console w' = console w
     \<and> containers w' = containers w"
  by (auto simp: removeSession_def save_def split: sum.splits if_splits)

lemma push_keeps_paths: "fsPaths (pushAction env session w) = fsPaths w"
  by (auto simp: pushAction_def Let_def pushFailed_def split: option.splits sum.splits
        dest: removeSession_fields)

lemma push_retires_only_on_success:
  assumes "storeFile (pushAction env session w) \<noteq> storeFile w"
  shows "gitRemoteOk env \<and> str_includes (remoteOutput (remotes env)) ''origin''
       \<and> gitAddOk env \<and> gitBranch env \<noteq> None \<and> gitPushOk env"
  using assms
  by (auto simp: pushAction_def Let_def pushFailed_def split: option.splits sum.splits if_splits)

lemma push_failure_reported:
  assumes "str_includes (remoteOutput (remotes env)) ''origin''"
    and "\<not> (gitRemoteOk env \<and> gitAddOk env \<and> gitBranch env \<noteq> None \<and> gitPushOk env)"
  shows "storeFile (pushAction env session w) = storeFile w
       \<and> ''Push failed:'' \<in> set (console (pushAction env session w))"
  using assms
  by (auto simp: pushAction_def Let_def pushFailed_def split: option.splits)

lemma push_success_retires:
  assumes "gitRemoteOk env" and "str_includes (remoteOutput (remotes env)) ''origin''"
    and "gitAddOk env" and "gitBranch env = Some out" and "gitPushOk env"
    and "diskWritable w" and "asArray (load w) = Inr sessions"
  shows "load (pushAction env session w)
           = JArr (map toJson (filter (\<lambda>s. containerId s \<noteq> containerId session) sessions))"
  using assms
  by (simp add: pushAction_def Let_def removeSession_writable [where sessions = sessions]
        load_stored)

text \<open>
  C3 fails on the code in its first part. The check is
  \<^verbatim>\<open>remoteOutput.includes("origin")\<close>, a test for the text, not for a remote of that
  name. In a shadow repo whose only remote is \<^verbatim>\<open>upstream\<close> at
  \<^verbatim>\<open>https://git.example.com/origin-labs/app.git\<close> no remote named origin is
  configured, yet the action does not abort: it stages, commits, asks for the branch and
  tries to push, and only the failing push ends it. The record is kept.
\<close>

theorem push_proceeds_without_origin_remote:
  "''origin'' \<notin> fst ` set (remotes strayEnv)
   \<and> fst (recoverSession strayEnv goneShadowSession shadowWorld) = Returned
   \<and> shellLog (snd (recoverSession strayEnv goneShadowSession shadowWorld))
       = [(shadowRepoPath exampleSession, ''git remote -v''),
          (shadowRepoPath exampleSession, ''git add -A''),
          (shadowRepoPath exampleSession,
             ''git commit -m [recovery] Recovered changes from 2026-01-02T03-04-05-678Z''),
          (shadowRepoPath exampleSession, ''git branch --show-current''),
          (shadowRepoPath exampleSession, ''git push -u origin main'')]
   \<and> load (snd (recoverSession strayEnv goneShadowSession shadowWorld))
       = JArr [toJson exampleSession]"
proof -
  have inc: "str_includes (remoteOutput (remotes strayEnv)) ''origin''"
    by (simp add: strayEnv_def remoteOutput_def)
  have env: "chosenAction strayEnv = Push" "gitRemoteOk strayEnv" "gitAddOk strayEnv"
    "gitBranch strayEnv = Some (''main'' @ [CHR 0x0A])" "\<not> gitPushOk strayEnv"
    "now strayEnv = ''2026-01-02T03:04:05.678Z''"
    by (simp_all add: strayEnv_def)
  have tr: "trim (''main'' @ [CHR 0x0A]) = ''main''"
    by (simp add: trim_def isSpace_def)
  have ts: "replaceColonDot ''2026-01-02T03:04:05.678Z'' = ''2026-01-02T03-04-05-678Z''"
    by (simp add: replaceColonDot_def)
  have lg: "shellLog shadowWorld = []"
    by (simp add: shadowWorld_def idleWorld_def)
  have ld: "load shadowWorld = JArr [toJson exampleSession]"
    by (simp add: shadowWorld_def load_def load_file_storeData)
  have rs: "recoverSession strayEnv goneShadowSession shadowWorld
     = (Returned, pushAction strayEnv goneShadowSession
                    (offerActions goneShadowSession shadowWorld))"
    by (simp add: recoverSession_gone_shadow goneShadowSession_fields env)
  have n: "''origin'' \<notin> fst ` set (remotes strayEnv)"
    by (simp add: strayEnv_def)
  show ?thesis
    unfolding rs using n
    by (simp add: pushAction_def Let_def inc goneShadowSession_fields env tr ts lg ld
          pushFailed_def del: append.simps)
qed


section \<open>Properties of the clean command\<close>

lemma removeTargets_keeps:
  "removeTargets frc cs w = (r, w') \<Longrightarrow>
     storeFile w' = storeFile w \<and> fsPaths w' = fsPaths w \<and> diskWritable w' = diskWritable w
     \<and> dockerUp w' = dockerUp w \<and> homedir w' = homedir w"
proof (induction cs arbitrary: w)
  case Nil
  then show ?case by simp
next
  case (Cons c cs)
  then show ?case
    by (fastforce simp: stopContainer_def removeContainer_def
          split: sum.splits if_splits)
qed

text \<open>
  The loop over the records: a record is dropped exactly when a visited session has its
  container id and \<^verbatim>\<open>inspect()\<close> fails for it; containers and paths are not touched.
\<close>

lemma cleanRecords_result:
  "cleanRecords rest w = (None, w') \<Longrightarrow> asArray (load w) = Inr cur \<Longrightarrow>
     asArray (load w') =
        Inr (filter (\<lambda>s. containerId s \<in> containerId ` set rest
                          \<longrightarrow> containerExists w (containerId s)) cur)
     \<and> containers w' = containers w \<and> dockerUp w' = dockerUp w
     \<and> fsPaths w' = fsPaths w \<and> homedir w' = homedir w"
proof (induction rest arbitrary: w cur)
  case Nil
  then show ?case by simp
next
  case (Cons session rest)
  show ?case
  proof (cases "inspect w (containerId session)")
    case (Inr info)
    then have ex: "containerExists w (containerId session)"
      by (simp add: containerExists_def)
    from Cons.prems(1) Inr have "cleanRecords rest w = (None, w')" by simp
    from Cons.IH [OF this Cons.prems(2)] ex show ?thesis
      by (auto intro!: filter_cong)
  next
    case (Inl e)
    then have nex: "\<not> containerExists w (containerId session)"
      by (simp add: containerExists_def)
    from Cons.prems(1) Inl obtain w1 where
      rs: "removeSession (containerId session) w = Inr w1"
      and cr: "cleanRecords rest w1 = (None, w')"
      by (auto split: sum.splits)
    from removeSession_Inr [OF rs] Cons.prems(2) have
      w1: "w1 = w\<lparr>storeFile := Parsed (storeData
                   (filter (\<lambda>s. containerId s \<noteq> containerId session) cur))\<rparr>"
      by auto
    have l1: "asArray (load w1) = Inr (filter (\<lambda>s. containerId s \<noteq> containerId session) cur)"
      unfolding w1 by (simp only: load_stored asArray_records)
    have same: "containerExists w1 = containerExists w"
      unfolding w1 by (simp add: containerExists_def inspect_def fun_eq_iff)
    from Cons.IH [OF cr l1] same nex show ?thesis
      unfolding w1 by (auto intro!: filter_cong)
  qed
qed

lemma removeOrphans_keeps:
  "removeOrphans base ids entries w = (r, w') \<Longrightarrow>
     storeFile w' = storeFile w \<and> containers w' = containers w \<and> dockerUp w' = dockerUp w"
  by (induction entries arbitrary: w)
     (auto simp: removeTree_def split: if_splits sum.splits)

lemma cleanShadows_keeps:
  "cleanShadows options w = (r, w') \<Longrightarrow>
     storeFile w' = storeFile w \<and> containers w' = containers w \<and> dockerUp w' = dockerUp w
     \<and> (\<not> shadows options \<longrightarrow> w' = w)"
  by (auto simp: cleanShadows_def Let_def split: if_splits sum.splits dest: removeOrphans_keeps)

lemma find_distinct_id:
  "distinct (map cId cs) \<Longrightarrow> c \<in> set cs \<Longrightarrow> find (\<lambda>d. cId d = cId c) cs = Some c"
  by (induction cs) (auto simp: image_iff)

lemma inspect_member:
  assumes "dockerUp w" and "distinct (map cId (containers w))" and "c \<in> set (containers w)"
  shows "inspect w (cId c) = Inr c"
  using assms by (simp add: inspect_def find_distinct_id)

lemma removeTargets_completes:
  "dockerUp w \<Longrightarrow> distinct (map cId (containers w)) \<Longrightarrow> set targets \<subseteq> set (containers w) \<Longrightarrow>
   distinct (map cId targets) \<Longrightarrow>
   \<forall>c \<in> set targets. cRunning c \<longrightarrow> cState c = ''running'' \<and> frc \<Longrightarrow>
   \<exists>w'. removeTargets frc targets w = (None, w')"
proof (induction targets arbitrary: w)
  case Nil
  show ?case by simp
next
  case (Cons c cs)
  have cin: "c \<in> set (containers w)" using Cons.prems(3) by simp
  have others: "\<And>d. d \<in> set cs \<Longrightarrow> cId d \<noteq> cId c \<and> d \<in> set (containers w)"
    using Cons.prems(3,4) by (auto simp: image_iff)
  have run: "\<forall>d \<in> set cs. cRunning d \<longrightarrow> cState d = ''running'' \<and> frc"
    using Cons.prems(5) by simp
  have dcs: "distinct (map cId cs)" using Cons.prems(4) by simp
  show ?case
  proof (cases "cState c = ''running'' \<and> frc")
    case True
    let ?stop = "\<lambda>d. if cId d = cId c then d\<lparr>cState := ''exited'', cRunning := False\<rparr> else d"
    let ?w1 = "w\<lparr>containers := map ?stop (containers w)\<rparr>"
    have s: "stopContainer (cId c) w = Inr ?w1"
      using inspect_member [OF Cons.prems(1,2) cin] by (simp add: stopContainer_def)
    have ids: "cId \<circ> ?stop = cId"
      by (auto simp: fun_eq_iff)
    have d1: "distinct (map cId (containers ?w1))"
      using Cons.prems(2) by (simp add: ids)
    have c1: "?stop c \<in> set (containers ?w1)" using cin by auto
    have "inspect ?w1 (cId (?stop c)) = Inr (?stop c)"
      using Cons.prems(1) d1 c1 by (intro inspect_member) simp_all
    then have i1: "inspect ?w1 (cId c) = Inr (c\<lparr>cState := ''exited'', cRunning := False\<rparr>)"
      by simp
    let ?w2 = "?w1\<lparr>containers := filter (\<lambda>d. cId d \<noteq> cId c) (containers ?w1)\<rparr>"
    have r: "removeContainer (cId c) ?w1 = Inr ?w2"
      using i1 by (simp add: removeContainer_def)
    have sub: "set cs \<subseteq> set (containers ?w2)"
      using others by force
    have d2: "distinct (map cId (containers ?w2))"
      using d1 by (simp add: distinct_map_filter)
    have "dockerUp ?w2" using Cons.prems(1) by simp
    from Cons.IH [OF this d2 sub dcs run] obtain w' where
      "removeTargets frc cs ?w2 = (None, w')" by blast
    then show ?thesis using True s r by simp
  next
    case False
    then have nr: "\<not> cRunning c" using Cons.prems(5) by auto
    let ?w2 = "w\<lparr>containers := filter (\<lambda>d. cId d \<noteq> cId c) (containers w)\<rparr>"
    have r: "removeContainer (cId c) w = Inr ?w2"
      using inspect_member [OF Cons.prems(1,2) cin] nr by (simp add: removeContainer_def)
    have sub: "set cs \<subseteq> set (containers ?w2)"
      using others by force
    have d2: "distinct (map cId (containers ?w2))"
      using Cons.prems(2) by (simp add: distinct_map_filter)
    have "dockerUp ?w2" using Cons.prems(1) by simp
    from Cons.IH [OF this d2 sub dcs run] obtain w' where
      "removeTargets frc cs ?w2 = (None, w')" by blast
    then show ?thesis using False r by auto
  qed
qed

lemma cleanRecords_completes:
  "diskWritable w \<Longrightarrow> asArray (load w) = Inr cur \<Longrightarrow> \<exists>w'. cleanRecords rest w = (None, w')"
proof (induction rest arbitrary: w cur)
  case Nil
  show ?case by simp
next
  case (Cons session rest)
  show ?case
  proof (cases "inspect w (containerId session)")
    case (Inr info)
    then show ?thesis using Cons.IH [OF Cons.prems] by simp
  next
    case (Inl e)
    let ?w1 = "w\<lparr>storeFile := Parsed (storeData
                 (filter (\<lambda>s. containerId s \<noteq> containerId session) cur))\<rparr>"
    have r: "removeSession (containerId session) w = Inr ?w1"
      using Cons.prems(2,1) by (rule removeSession_writable)
    have "diskWritable ?w1" using Cons.prems(1) by simp
    moreover have "asArray (load ?w1)
        = Inr (filter (\<lambda>s. containerId s \<noteq> containerId session) cur)"
      by (simp only: load_stored asArray_records)
    ultimately obtain w' where "cleanRecords rest ?w1 = (None, w')"
      using Cons.IH by blast
    then show ?thesis using Inl r by simp
  qed
qed

lemma removeOrphans_completes:
  "diskWritable w \<Longrightarrow> \<exists>w'. removeOrphans base ids entries w = (None, w')"
  by (induction entries arbitrary: w) (simp_all add: removeTree_def)

lemma cleanRecords_writable:
  "cleanRecords rest w = (r, w') \<Longrightarrow> diskWritable w' = diskWritable w"
  by (induction rest arbitrary: w)
     (auto simp: removeSession_def save_def split: sum.splits if_splits)

lemma clean_completes:
  assumes "dockerUp w" and "diskWritable w" and "asIterable (load w) = Inr sessions"
    and "distinct (map cId (containers w))"
    and "\<forall>c \<in> set (containers w). cRunning c \<longrightarrow> cState c = ''running''"
  shows "\<exists>w'. clean options w = (Returned, w')"
proof -
  let ?cs = "filter (\<lambda>c. list_ex (\<lambda>name. str_includes name ''claude-code-sandbox'') (cNames c))
               (containers w)"
  let ?targets = "if force options then ?cs else filter (\<lambda>c. cState c \<noteq> ''running'') ?cs"
  have g: "getClaudeSandboxContainers w = Inr ?cs"
    using assms(1) by (simp add: getClaudeSandboxContainers_def listContainers_def)
  have sub: "set ?targets \<subseteq> set (containers w)" by auto
  have dt: "distinct (map cId ?targets)"
    using assms(4) by (simp add: distinct_map_filter)
  have run: "\<forall>c \<in> set ?targets. cRunning c \<longrightarrow> cState c = ''running'' \<and> force options"
    using assms(5) by auto
  from removeTargets_completes [OF assms(1,4) sub dt run] obtain w1 where
    rt: "removeTargets (force options) ?targets w = (None, w1)" by blast
  from removeTargets_keeps [OF rt] have k1: "storeFile w1 = storeFile w" "diskWritable w1"
    using assms(2) by simp_all
  then have it1: "asIterable (load w1) = Inr sessions"
    using assms(3) by (simp add: load_def)
  then have ar1: "asArray (load w1) = Inr sessions"
    using asIterable_Inr asArray_records by metis
  from cleanRecords_completes [OF k1(2) ar1] obtain w2 where
    cr: "cleanRecords sessions w1 = (None, w2)" by blast
  from cleanRecords_writable [OF cr] k1(2) have d2: "diskWritable w2" by simp
  from cleanRecords_result [OF cr ar1] obtain cur2 where ar2: "asArray (load w2) = Inr cur2"
    by blast
  have "\<exists>w3. cleanShadows options w2 = (None, w3)"
    using removeOrphans_completes [OF d2] by (simp add: cleanShadows_def Let_def ar2)
  then obtain w3 where sh: "cleanShadows options w2 = (None, w3)" by blast
  have "cleanBody options w = (None, w3)"
    using g rt it1 cr sh by (simp add: cleanBody_def Let_def)
  then show ?thesis by (simp add: clean_def)
qed

lemma clean_result:
  assumes "clean options w = (Returned, w')" and "asIterable (load w) = Inr sessions"
  shows "asArray (load w') = Inr (filter (\<lambda>s. containerExists w' (containerId s)) sessions)
       \<and> (\<forall>s \<in> set sessions. \<not> containerExists w' (containerId s) \<longrightarrow>
             (\<forall>stored. asArray (load w') = Inr stored \<longrightarrow> s \<notin> set stored))
       \<and> (\<not> shadows options \<longrightarrow> fsPaths w' = fsPaths w)
       \<and> (\<forall>s \<in> set sessions. \<not> containerExists w' (containerId s)
              \<and> pathExists w (shadowRepoPath s) \<and> \<not> shadows options \<longrightarrow>
             pathExists w' (shadowRepoPath s)
             \<and> enrich w' s \<in> set (recoverableLoop w' sessions []))"
proof -
  from assms(1) obtain w3 where body: "cleanBody options w = (None, w3)"
    and w': "w' = say ''Cleaned up'' w3"
    by (auto simp: clean_def split: prod.splits option.splits)
  from body obtain cs where cs: "getClaudeSandboxContainers w = Inr cs"
    by (auto simp: cleanBody_def split: sum.splits)
  let ?targets = "if force options then cs else filter (\<lambda>c. cState c \<noteq> ''running'') cs"
  from body cs obtain w1 where rt: "removeTargets (force options) ?targets w = (None, w1)"
    by (auto simp: cleanBody_def Let_def split: sum.splits prod.splits option.splits)
  from removeTargets_keeps [OF rt] have k1: "storeFile w1 = storeFile w" "fsPaths w1 = fsPaths w"
    by simp_all
  then have l1: "load w1 = load w" by (simp add: load_def)
  with assms(2) have it1: "asIterable (load w1) = Inr sessions" by simp
  then have ar1: "asArray (load w1) = Inr sessions"
    using asIterable_Inr asArray_records by metis
  from body cs rt it1 obtain w2 where cr: "cleanRecords sessions w1 = (None, w2)"
    and sh: "cleanShadows options w2 = (None, w3)"
    by (auto simp: cleanBody_def Let_def split: sum.splits prod.splits option.splits)
  from cleanRecords_result [OF cr ar1] have
    r2: "asArray (load w2) = Inr (filter (\<lambda>s. containerExists w1 (containerId s)) sessions)"
    and k2: "containers w2 = containers w1" "dockerUp w2 = dockerUp w1" "fsPaths w2 = fsPaths w1"
    by (auto intro: filter_cong)
  from cleanShadows_keeps [OF sh] have
    k3: "storeFile w3 = storeFile w2" "containers w3 = containers w2" "dockerUp w3 = dockerUp w2"
        "\<not> shadows options \<longrightarrow> w3 = w2"
    by simp_all
  have ex: "containerExists w' = containerExists w1"
    using k2 k3 by (simp add: w' containerExists_def inspect_def fun_eq_iff)
  have ld: "load w' = load w2"
    using k3 by (simp add: w' load_def)
  have A: "asArray (load w') = Inr (filter (\<lambda>s. containerExists w' (containerId s)) sessions)"
    using r2 by (simp add: ld ex)
  have B: "\<not> shadows options \<longrightarrow> fsPaths w' = fsPaths w"
    using k1 k2 k3 by (auto simp: w')
  have C: "\<forall>s \<in> set sessions. \<not> containerExists w' (containerId s) \<longrightarrow>
             (\<forall>stored. asArray (load w') = Inr stored \<longrightarrow> s \<notin> set stored)"
    using A by auto
  have D: "\<forall>s \<in> set sessions. \<not> containerExists w' (containerId s)
              \<and> pathExists w (shadowRepoPath s) \<and> \<not> shadows options \<longrightarrow>
             pathExists w' (shadowRepoPath s)
             \<and> enrich w' s \<in> set (recoverableLoop w' sessions [])"
    using B by (auto simp: pathExists_def recoverableLoop_eq)
  from A B C D show ?thesis by blast
qed

text \<open>
  C10: on a reachable runtime (container ids unique, a container that runs listed as
  running), a disk that takes the changes and a store that holds the records
  \<open>sessions\<close>, the clean command completes, and afterwards the store holds exactly
  the records whose container the runtime still knows: a record whose container is gone
  is dropped whether or not its shadow repo exists. Without \<^verbatim>\<open>--shadows\<close> no path is
  touched, so for a dropped record whose shadow repo existed the directory is still
  there, and \<open>getRecoverableSessions\<close> would have listed the session had its record
  been kept.
\<close>

theorem clean_drops_gone_records:
  assumes "dockerUp w" and "diskWritable w" and "asIterable (load w) = Inr sessions"
    and "distinct (map cId (containers w))"
    and "\<forall>c \<in> set (containers w). cRunning c \<longrightarrow> cState c = ''running''"
  shows "\<exists>w'. clean options w = (Returned, w')
       \<and> asArray (load w') = Inr (filter (\<lambda>s. containerExists w' (containerId s)) sessions)
       \<and> (\<forall>s \<in> set sessions. \<not> containerExists w' (containerId s) \<longrightarrow>
             (\<forall>stored. asArray (load w') = Inr stored \<longrightarrow> s \<notin> set stored))
       \<and> (\<not> shadows options \<longrightarrow> fsPaths w' = fsPaths w)
       \<and> (\<forall>s \<in> set sessions. \<not> containerExists w' (containerId s)
              \<and> pathExists w (shadowRepoPath s) \<and> \<not> shadows options \<longrightarrow>
             pathExists w' (shadowRepoPath s)
             \<and> enrich w' s \<in> set (recoverableLoop w' sessions []))"
proof -
  from clean_completes [OF assms] obtain w' where c: "clean options w = (Returned, w')"
    by blast
  from clean_result [OF c assms(3)] c show ?thesis by blast
qed

lemma clean_example:
  "clean \<lparr>force = False, shadows = False\<rparr> shadowWorld
     = (Returned, say ''Cleaned up'' (shadowWorld\<lparr>storeFile := Parsed (storeData [])\<rparr>))"
proof -
  have g: "getClaudeSandboxContainers shadowWorld = Inr []"
    by (simp add: getClaudeSandboxContainers_def listContainers_def shadowWorld_def idleWorld_def)
  have i: "inspect shadowWorld (containerId exampleSession) = Inl DockerError"
    by (simp add: inspect_def shadowWorld_def idleWorld_def)
  have d: "diskWritable shadowWorld"
    by (simp add: shadowWorld_def idleWorld_def)
  have r: "removeSession (containerId exampleSession) shadowWorld
             = Inr (shadowWorld\<lparr>storeFile := Parsed (storeData [])\<rparr>)"
    using removeSession_writable [OF asArray_shadowWorld d, of "containerId exampleSession"]
    by simp
  show ?thesis
    by (simp add: clean_def cleanBody_def g asIterable_shadowWorld i r cleanShadows_def)
qed

text \<open>With \<^verbatim>\<open>--shadows\<close> the same run also deletes the shadow directory of the dropped record.\<close>

lemma clean_shadows_example:
  "clean \<lparr>force = False, shadows = True\<rparr> shadowWorld
     = (Returned, say ''Cleaned up''
         (shadowWorld\<lparr>storeFile := Parsed (storeData []),
                      fsPaths := [''/home/op/.cache/claude-sandbox/shadows'']\<rparr>))"
proof -
  have g: "getClaudeSandboxContainers shadowWorld = Inr []"
    by (simp add: getClaudeSandboxContainers_def listContainers_def shadowWorld_def idleWorld_def)
  have i: "inspect shadowWorld (containerId exampleSession) = Inl DockerError"
    by (simp add: inspect_def shadowWorld_def idleWorld_def)
  have d: "diskWritable shadowWorld"
    by (simp add: shadowWorld_def idleWorld_def)
  have r: "removeSession (containerId exampleSession) shadowWorld
             = Inr (shadowWorld\<lparr>storeFile := Parsed (storeData [])\<rparr>)"
    using removeSession_writable [OF asArray_shadowWorld d, of "containerId exampleSession"]
    by simp
  have l: "asArray (load (shadowWorld\<lparr>storeFile := Parsed (storeData [])\<rparr>)) = Inr []"
    using asArray_records [of "[]"] by (simp add: load_def load_file_storeData)
  have b: "SHADOW_BASE_PATH (shadowWorld\<lparr>storeFile := Parsed (storeData [])\<rparr>)
             = ''/home/op/.cache/claude-sandbox/shadows''"
    by (simp add: SHADOW_BASE_PATH_def shadowWorld_def idleWorld_def)
  have p: "fsPaths (shadowWorld\<lparr>storeFile := Parsed (storeData [])\<rparr>)
      = [''/home/op/.cache/claude-sandbox/shadows'',
         ''/home/op/.cache/claude-sandbox/shadows/c0ffee012345'',
         ''/home/op/.cache/claude-sandbox/shadows/c0ffee012345/README.md'']"
    by (simp add: shadowWorld_def exampleSession_def)
  have rd: "readdir ''/home/op/.cache/claude-sandbox/shadows''
              (shadowWorld\<lparr>storeFile := Parsed (storeData [])\<rparr>) = [''c0ffee012345'']"
    unfolding readdir_def p by simp
  show ?thesis
    by (simp add: clean_def cleanBody_def g asIterable_shadowWorld i r cleanShadows_def
         l b rd pathExists_def p removeTree_def d under_def)
qed

text \<open>
  C10 on the example machine: the container of the record is gone and its shadow
  directory exists; after \<^verbatim>\<open>clean\<close> the store is empty and the directory is there.
\<close>

theorem clean_drops_gone_records_witness:
  "(\<exists>w'. clean \<lparr>force = False, shadows = False\<rparr> shadowWorld = (Returned, w')
       \<and> asArray (load w') = Inr []
       \<and> pathExists w' (shadowRepoPath exampleSession)
       \<and> fsPaths w' = fsPaths shadowWorld)"
proof -
  have h: "dockerUp shadowWorld" "diskWritable shadowWorld"
    "distinct (map cId (containers shadowWorld))"
    "\<forall>c \<in> set (containers shadowWorld). cRunning c \<longrightarrow> cState c = ''running''"
    by (simp_all add: shadowWorld_def idleWorld_def)
  from clean_drops_gone_records
         [OF h(1,2) asIterable_shadowWorld h(3,4), of "\<lparr>force = False, shadows = False\<rparr>"]
  obtain w' where w': "clean \<lparr>force = False, shadows = False\<rparr> shadowWorld = (Returned, w')"
    "asArray (load w') = Inr (filter (\<lambda>s. containerExists w' (containerId s)) [exampleSession])"
    "fsPaths w' = fsPaths shadowWorld"
    by auto
  from w'(1) have "w' = say ''Cleaned up'' (shadowWorld\<lparr>storeFile := Parsed (storeData [])\<rparr>)"
    by (simp add: clean_example)
  then have n: "\<not> containerExists w' (containerId exampleSession)"
    by (simp add: containerExists_def inspect_def shadowWorld_def idleWorld_def)
  have p: "pathExists w' (shadowRepoPath exampleSession)"
    using w'(3) by (simp add: pathExists_def shadowWorld_def)
  from w' n p show ?thesis by auto
qed

section \<open>Properties of the branch resolution\<close>

lemma splitOn_nonempty: "splitOn c s \<noteq> []"
  by (induction s) (auto split: list.splits)

lemma splitOn_first:
  "c \<notin> set remote \<Longrightarrow> splitOn c (remote @ c # rest) = remote # splitOn c rest"
  by (induction remote) (auto split: list.splits)

lemma joinWith_Cons_Cons: "joinWith sep ((x # p) # ps) = x # joinWith sep (p # ps)"
  by (cases ps) simp_all

lemma joinWith_splitOn: "joinWith [c] (splitOn c s) = s"
proof (induction s)
  case Nil
  show ?case by simp
next
  case (Cons x xs)
  obtain p ps where sp: "splitOn c xs = p # ps"
    using splitOn_nonempty [of c xs] by (cases "splitOn c xs") auto
  show ?case
    using Cons sp by (simp add: joinWith_Cons_Cons)
qed

lemma hd_splitOn: "splitOn c s = p # ps \<Longrightarrow> p = takeWhile (\<lambda>x. x \<noteq> c) s"
  by (induction s arbitrary: p ps) (auto simp: splitOn_nonempty split: if_splits list.splits)

lemma generatedBranch_eq:
  "generatedBranch env =
     ''claude/'' @ takeWhile (\<lambda>c. c \<noteq> CHR ''T'') (replaceColonDot (isoNow env))
       @ ''-'' @ showNat (dateNow env)"
proof -
  obtain p ps where sp: "splitOn CHR ''T'' (replaceColonDot (isoNow env)) = p # ps"
    using splitOn_nonempty [of "CHR ''T''" "replaceColonDot (isoNow env)"]
    by (cases "splitOn CHR ''T'' (replaceColonDot (isoNow env))") auto
  from hd_splitOn [OF sp] sp show ?thesis
    by (simp add: generatedBranch_def)
qed

lemma resolve_pr:
  assumes "prTruthy (prNumber cfg)" and "prNumber cfg = Some n" and "ghHeadRefName env = Some h"
  shows "resolveBranch cfg env =
        Inr \<lparr>planBranchName = h, prFetchRef = ''pull/'' @ prText n @ ''/head:'' @ h,
             remoteFetchRef = []\<rparr>"
  using assms by (auto simp: resolveBranch_def)

lemma resolve_pr_fails:
  assumes "prTruthy (prNumber cfg)" and "ghHeadRefName env = None"
  shows "resolveBranch cfg env = Inl GhError"
  using assms by (auto simp: resolveBranch_def split: option.splits)

lemma resolve_remote:
  assumes "\<not> prTruthy (prNumber cfg)" and "remoteBranch cfg = Some (remote @ ''/'' @ branch)"
    and "CHR ''/'' \<notin> set remote"
  shows "resolveBranch cfg env =
     Inr \<lparr>planBranchName = branch, prFetchRef = [], remoteFetchRef = remote @ ''/'' @ branch\<rparr>"
proof -
  obtain b bs where sp: "splitOn CHR ''/'' branch = b # bs"
    using splitOn_nonempty [of "CHR ''/''" branch] by (cases "splitOn CHR ''/'' branch") auto
  have s: "splitOn CHR ''/'' (remote @ ''/'' @ branch) = remote # b # bs"
    using splitOn_first [OF assms(3), of branch] sp by simp
  have j: "joinWith ''/'' (b # bs) = branch"
    using joinWith_splitOn [of "CHR ''/''" branch] sp by simp
  show ?thesis
    using assms(1,2) s j by (simp add: resolveBranch_def)
qed

lemma resolve_no_slash:
  assumes "\<not> prTruthy (prNumber cfg)" and "remoteBranch cfg = Some spec" and "spec \<noteq> []"
    and "CHR ''/'' \<notin> set spec"
  shows "resolveBranch cfg env = Inl UsageError"
proof -
  have "splitOn CHR ''/'' spec = [spec]"
    using assms(4) by (induction spec) (auto split: list.splits)
  then show ?thesis using assms(1,2,3) by (simp add: resolveBranch_def)
qed

lemma resolve_default:
  assumes "\<not> prTruthy (prNumber cfg)" and "\<not> strTruthy (remoteBranch cfg)"
  shows "\<exists>name. resolveBranch cfg env =
                Inr \<lparr>planBranchName = name, prFetchRef = [], remoteFetchRef = []\<rparr>
         \<and> (strTruthy (targetBranch cfg) \<longrightarrow> targetBranch cfg = Some name)
         \<and> (\<not> strTruthy (targetBranch cfg) \<longrightarrow>
              name = ''claude/''
                @ takeWhile (\<lambda>c. c \<noteq> CHR ''T'') (replaceColonDot (isoNow env))
                @ ''-'' @ showNat (dateNow env))"
proof (cases "targetBranch cfg")
  case None
  with assms show ?thesis by (simp add: resolveBranch_def generatedBranch_eq)
next
  case (Some t)
  with assms show ?thesis
    by (cases "t = []") (simp_all add: resolveBranch_def generatedBranch_eq)
qed

lemma resolve_exclusive:
  assumes "resolveBranch cfg env = Inr plan"
  shows "(prFetchRef plan \<noteq> []) = prTruthy (prNumber cfg)
        \<and> (remoteFetchRef plan \<noteq> [])
            = (\<not> prTruthy (prNumber cfg) \<and> strTruthy (remoteBranch cfg))
        \<and> \<not> (prFetchRef plan \<noteq> [] \<and> remoteFetchRef plan \<noteq> [])"
  using assms
  by (auto simp: resolveBranch_def Let_def
        split: if_splits option.splits list.splits prod.splits)

text \<open>
  C6: with a pull request number (and \<^verbatim>\<open>gh\<close> answering) the branch is the head
  branch and the PR fetch reference is \<^verbatim>\<open>pull/<n>/head:<name>\<close>; otherwise, with a
  remote branch \<open>remote/branch\<close> whose \<open>remote\<close> has no slash, the branch is
  everything after the first slash and the remote fetch reference is the spec;
  otherwise the branch is the configured name, or else \<^verbatim>\<open>claude/<date>-<millis>\<close>,
  and both references are empty. A resolution that succeeds has the PR reference exactly
  in the first mode, the remote reference exactly in the second, and never both.
\<close>

theorem branch_resolution_modes:
  "(prTruthy (prNumber cfg) \<and> prNumber cfg = Some n \<and> ghHeadRefName env = Some h \<longrightarrow>
      resolveBranch cfg env =
        Inr \<lparr>planBranchName = h, prFetchRef = ''pull/'' @ prText n @ ''/head:'' @ h,
             remoteFetchRef = []\<rparr>)
   \<and> (\<not> prTruthy (prNumber cfg) \<and> remoteBranch cfg = Some (remote @ ''/'' @ branch)
        \<and> CHR ''/'' \<notin> set remote \<longrightarrow>
      resolveBranch cfg env =
        Inr \<lparr>planBranchName = branch, prFetchRef = [],
             remoteFetchRef = remote @ ''/'' @ branch\<rparr>)
   \<and> (\<not> prTruthy (prNumber cfg) \<and> \<not> strTruthy (remoteBranch cfg) \<longrightarrow>
      (\<exists>name. resolveBranch cfg env =
                Inr \<lparr>planBranchName = name, prFetchRef = [], remoteFetchRef = []\<rparr>
         \<and> (strTruthy (targetBranch cfg) \<longrightarrow> targetBranch cfg = Some name)
         \<and> (\<not> strTruthy (targetBranch cfg) \<longrightarrow>
              name = ''claude/''
                @ takeWhile (\<lambda>c. c \<noteq> CHR ''T'') (replaceColonDot (isoNow env))
                @ ''-'' @ showNat (dateNow env))))
   \<and> (resolveBranch cfg env = Inr plan \<longrightarrow>
        (prFetchRef plan \<noteq> []) = prTruthy (prNumber cfg)
        \<and> (remoteFetchRef plan \<noteq> [])
            = (\<not> prTruthy (prNumber cfg) \<and> strTruthy (remoteBranch cfg))
        \<and> \<not> (prFetchRef plan \<noteq> [] \<and> remoteFetchRef plan \<noteq> []))"
  using resolve_pr [of cfg n env h] resolve_remote [of cfg remote branch env]
    resolve_default [of cfg env] resolve_exclusive [of cfg env plan]
  by blast

text \<open>
  C6 on three configurations: pull request 42, the remote branch
  \<^verbatim>\<open>origin/feature/login\<close>, and nothing configured.
\<close>

theorem branch_resolution_modes_witness:
  "resolveBranch \<lparr>prNumber = Some (PrStr ''42''), remoteBranch = Some ''origin/x'',
                  targetBranch = None\<rparr> exampleRunEnv
     = Inr \<lparr>planBranchName = ''fix-login'', prFetchRef = ''pull/42/head:fix-login'',
            remoteFetchRef = []\<rparr>
   \<and> resolveBranch \<lparr>prNumber = None, remoteBranch = Some ''origin/feature/login'',
                    targetBranch = Some ''main''\<rparr> exampleRunEnv
     = Inr \<lparr>planBranchName = ''feature/login'', prFetchRef = [],
            remoteFetchRef = ''origin/feature/login''\<rparr>
   \<and> (\<exists>name. resolveBranch \<lparr>prNumber = None, remoteBranch = None, targetBranch = None\<rparr>
               exampleRunEnv
             = Inr \<lparr>planBranchName = name, prFetchRef = [], remoteFetchRef = []\<rparr>
           \<and> name = ''claude/2026-01-02-'' @ showNat 1767323045678)"
proof -
  let ?c1 = "\<lparr>prNumber = Some (PrStr ''42''), remoteBranch = Some ''origin/x'',
              targetBranch = None\<rparr>"
  let ?c2 = "\<lparr>prNumber = None, remoteBranch = Some ''origin/feature/login'',
              targetBranch = Some ''main''\<rparr>"
  let ?c3 = "\<lparr>prNumber = None, remoteBranch = None, targetBranch = None\<rparr>"
  have e: "ghHeadRefName exampleRunEnv = Some ''fix-login''"
    "isoNow exampleRunEnv = ''2026-01-02T03:04:05.678Z''"
    "dateNow exampleRunEnv = 1767323045678"
    by (simp_all add: exampleRunEnv_def)
  have 1: "resolveBranch ?c1 exampleRunEnv
     = Inr \<lparr>planBranchName = ''fix-login'', prFetchRef = ''pull/42/head:fix-login'',
            remoteFetchRef = []\<rparr>"
    using branch_resolution_modes [of ?c1 "PrStr ''42''" exampleRunEnv "''fix-login''"] e
    by simp
  have 2: "resolveBranch ?c2 exampleRunEnv
     = Inr \<lparr>planBranchName = ''feature/login'', prFetchRef = [],
            remoteFetchRef = ''origin/feature/login''\<rparr>"
    using branch_resolution_modes
            [of ?c2 _ exampleRunEnv _ "''origin''" "''feature/login''"]
    by simp
  have 3: "\<exists>name. resolveBranch ?c3 exampleRunEnv
             = Inr \<lparr>planBranchName = name, prFetchRef = [], remoteFetchRef = []\<rparr>
           \<and> name = ''claude/2026-01-02-'' @ showNat 1767323045678"
    using branch_resolution_modes [of ?c3 _ exampleRunEnv] e
    by (simp add: replaceColonDot_def)
  from 1 2 3 show ?thesis by blast
qed

section \<open>Properties of the commit reaction\<close>

text \<open>
  C8: when the operator picks push-and-open-PR and the diff can be shown, a push that
  succeeds is followed by the PR creation and by nothing else, and
  \<open>handleCommit\<close> returns normally whether or not the PR creation succeeds; when it
  fails, the last thing printed is the warning. When the push does not succeed, the
  exception leaves \<open>handleCommit\<close> and the PR creation is not invoked.
\<close>

theorem push_then_create_pr:
  assumes "askedAction env = ActPushPr" and "diffOk env"
  shows "(localBranch env = Some b \<and> pushOk env \<longrightarrow>
           (\<exists>s'. handleCommit env s = (Returned, s')
              \<and> effects s' = effects s @ [GitDiff, GitBranchLocal, GitPush ''origin'' b, GhPrCreate]
              \<and> (\<not> prCreateOk env \<longrightarrow>
                    last (printed s')
                      = ''Could not create PR automatically. Please create it manually.'')))
       \<and> (\<not> (\<exists>b. localBranch env = Some b \<and> pushOk env) \<longrightarrow>
           (\<exists>e s'. handleCommit env s = (Raised e, s')
              \<and> GhPrCreate \<notin> set (drop (length (effects s)) (effects s'))))"
  using assms
  by (auto simp: handleCommit_def pushBranchAndCreatePR_def pushBranch_def does_def prints_def
        Let_def split: option.splits)

text \<open>C8 on a run in which the push succeeds and \<^verbatim>\<open>gh pr create\<close> fails.\<close>

theorem push_then_create_pr_witness:
  "\<exists>s'. handleCommit prFailsEnv \<lparr>effects = [], printed = [], webServer = True\<rparr> = (Returned, s')
      \<and> effects s' = [GitDiff, GitBranchLocal, GitPush ''origin'' ''claude/work'', GhPrCreate]
      \<and> last (printed s') = ''Could not create PR automatically. Please create it manually.''"
proof -
  have e: "askedAction prFailsEnv = ActPushPr" "diffOk prFailsEnv"
    "localBranch prFailsEnv = Some ''claude/work''" "pushOk prFailsEnv"
    "\<not> prCreateOk prFailsEnv"
    by (simp_all add: prFailsEnv_def)
  from push_then_create_pr
         [OF e(1,2), of "''claude/work''" "\<lparr>effects = [], printed = [], webServer = True\<rparr>"]
       e(3,4,5)
  show ?thesis by simp
qed


end
